theory Spec2Isabelle
  imports Complex_Main "HOL-Library.AList"
begin

section \<open>Numeric layer: Python's \<open>decimal\<close> and \<open>float\<close>\<close>

text \<open>
  The wallet code computes with \<open>decimal.Decimal\<close> under the default context
  (\<open>prec = 28\<close>, \<open>ROUND_HALF_EVEN\<close>, \<open>Emax = 999999\<close>, traps on InvalidOperation,
  DivisionByZero and Overflow) and keeps exchange rates as \<open>float\<close>.  A finite
  Decimal and a finite float are both modelled by their exact value, a rational number;
  an exception is a value of type \<open>error\<close>.
\<close>

datatype error = InvalidOperation | Overflow | DivisionByZero

datatype rounding = ROUND_HALF_UP | ROUND_HALF_EVEN

definition round_half_up :: "rat \<Rightarrow> int" where
  "round_half_up q = (if 0 \<le> q then \<lfloor>q + 1/2\<rfloor> else - \<lfloor>- q + 1/2\<rfloor>)"

definition round_half_even :: "rat \<Rightarrow> int" where
  "round_half_even q =
     (let f = \<lfloor>q\<rfloor>; r = q - of_int f
      in if r < 1/2 then f else if 1/2 < r then f + 1 else if even f then f else f + 1)"

definition round_int :: "rounding \<Rightarrow> rat \<Rightarrow> int" where
  "round_int mode q = (case mode of ROUND_HALF_UP \<Rightarrow> round_half_up q | ROUND_HALF_EVEN \<Rightarrow> round_half_even q)"

text \<open>
  \<open>x.quantize(Decimal(1).scaleb(-places), rounding=mode)\<close> under a context of precision
  \<open>prec\<close>: the coefficient of the result is \<open>x * 10^places\<close> rounded to an integer, and
  InvalidOperation is raised when that coefficient has more than \<open>prec\<close> digits.
\<close>

definition quantize :: "rounding \<Rightarrow> nat \<Rightarrow> nat \<Rightarrow> rat \<Rightarrow> error + rat" where
  "quantize mode prec places x =
     (if 10 ^ prec \<le> \<bar>round_int mode (x * 10 ^ places)\<bar> then Inl InvalidOperation
      else Inr (of_int (round_int mode (x * 10 ^ places)) / 10 ^ places))"

text \<open>\<open>x.quantize(Decimal('0.01'), rounding=ROUND_HALF_UP)\<close> in the default context.\<close>

definition quantize_cents :: "rat \<Rightarrow> error + rat" where
  "quantize_cents x = quantize ROUND_HALF_UP 28 2 x"

text \<open>The value the specification calls ``x rounded half-up to 2 decimal places''.\<close>

definition round_half_up_2 :: "rat \<Rightarrow> rat" where
  "round_half_up_2 x = of_int (round_half_up (x * 100)) / 100"

text \<open>
  \<open>log_up b x\<close> is \<open>\<lfloor>log\<^sub>b x\<rfloor>\<close> for \<open>1 \<le> x\<close> and \<open>log_down b x\<close> is the same for
  \<open>0 < x < 1\<close>; \<open>ilog b x\<close> is the exponent of the leading base-\<open>b\<close> digit of \<open>x \<noteq> 0\<close>
  (Decimal's \<open>adjusted()\<close> for \<open>b = 10\<close>).
\<close>

function log_up :: "int \<Rightarrow> rat \<Rightarrow> int" where
  "log_up b x = (if 2 \<le> b \<and> of_int b \<le> x then log_up b (x / of_int b) + 1 else 0)"
  by pat_completeness auto
termination
proof (relation "measure (\<lambda>(b, x). nat \<lfloor>x\<rfloor>)")
  show "wf (measure (\<lambda>(b, x). nat \<lfloor>x\<rfloor>))" by simp
next
  fix b :: int and x :: rat
  assume a: "2 \<le> b \<and> of_int b \<le> x"
  then have x2: "2 \<le> x" by linarith
  have "x / of_int b \<le> x / 2"
    using a x2 by (intro divide_left_mono) auto
  also have "\<dots> \<le> x - 1" using x2 by simp
  finally have "\<lfloor>x / of_int b\<rfloor> \<le> \<lfloor>x - 1\<rfloor>" by (rule floor_mono)
  then have "\<lfloor>x / of_int b\<rfloor> < \<lfloor>x\<rfloor>" by simp
  moreover have "0 < \<lfloor>x\<rfloor>" using x2 by linarith
  ultimately show "((b, x / of_int b), (b, x)) \<in> measure (\<lambda>(b, x). nat \<lfloor>x\<rfloor>)"
    by simp
qed

function log_down :: "int \<Rightarrow> rat \<Rightarrow> int" where
  "log_down b x = (if 2 \<le> b \<and> 0 < x \<and> x < 1 then log_down b (x * of_int b) - 1 else 0)"
  by pat_completeness auto
termination
proof (relation "measure (\<lambda>(b, x). nat \<lfloor>1 / x\<rfloor>)")
  show "wf (measure (\<lambda>(b, x). nat \<lfloor>1 / x\<rfloor>))" by simp
next
  fix b :: int and x :: rat
  assume a: "2 \<le> b \<and> 0 < x \<and> x < 1"
  define y where "y = 1 / x"
  have y1: "1 < y" using a by (simp add: y_def)
  have "1 / (x * of_int b) = y / of_int b" by (simp add: y_def)
  also have "\<dots> \<le> y / 2" using a y1 by (intro divide_left_mono) auto
  finally have le: "1 / (x * of_int b) \<le> y / 2" .
  have "y / 2 < of_int \<lfloor>y\<rfloor>"
  proof -
    have "y < of_int \<lfloor>y\<rfloor> + 1" by linarith
    moreover have "1 \<le> (of_int \<lfloor>y\<rfloor> :: rat)" using y1 by (simp add: le_floor_iff)
    ultimately show ?thesis by linarith
  qed
  with le have "1 / (x * of_int b) < of_int \<lfloor>y\<rfloor>" by linarith
  then have "\<lfloor>1 / (x * of_int b)\<rfloor> < \<lfloor>y\<rfloor>" by (simp add: floor_less_iff)
  moreover have "0 < \<lfloor>y\<rfloor>" using y1 by linarith
  ultimately show "((b, x * of_int b), (b, x)) \<in> measure (\<lambda>(b, x). nat \<lfloor>1 / x\<rfloor>)"
    by (simp add: y_def)
qed

declare log_up.simps [simp del] log_down.simps [simp del]

definition ilog :: "int \<Rightarrow> rat \<Rightarrow> int" where
  "ilog b x = (if 1 \<le> \<bar>x\<bar> then log_up b \<bar>x\<bar> else log_down b \<bar>x\<bar>)"

text \<open>
  The result of a Decimal arithmetic operation is the exact result rounded to the
  context: 28 significant digits, ties to even, the exponent not below
  \<open>Etiny = -1000026\<close>; a result whose adjusted exponent exceeds \<open>Emax\<close> raises Overflow.
\<close>

definition ctx_fix :: "rat \<Rightarrow> error + rat" where
  "ctx_fix x =
     (if x = 0 then Inr 0
      else let q = max (ilog 10 x - 27) (- 1000026);
               y = of_int (round_half_even (x / 10 powi q)) * 10 powi q
           in if y \<noteq> 0 \<and> 999999 < ilog 10 y then Inl Overflow else Inr y)"

definition dec_add :: "rat \<Rightarrow> rat \<Rightarrow> error + rat" where
  "dec_add x y = ctx_fix (x + y)"

definition dec_sub :: "rat \<Rightarrow> rat \<Rightarrow> error + rat" where
  "dec_sub x y = ctx_fix (x - y)"

definition dec_mul :: "rat \<Rightarrow> rat \<Rightarrow> error + rat" where
  "dec_mul x y = ctx_fix (x * y)"

definition dec_div :: "rat \<Rightarrow> rat \<Rightarrow> error + rat" where
  "dec_div x y =
     (if y = 0 then (if x = 0 then Inl InvalidOperation else Inl DivisionByZero)
      else ctx_fix (x / y))"

text \<open>
  A float is an IEEE 754 binary64 number: \<open>float_round x\<close> is the double nearest to
  \<open>x\<close> (ties to even, subnormals below \<open>2^-1022\<close>); it is what a float literal, a float
  division and \<open>float(Decimal)\<close> produce, for the magnitudes that occur here (far below
  the overflow threshold \<open>2^1024\<close>).
\<close>

definition float_round :: "rat \<Rightarrow> rat" where
  "float_round x =
     (if x = 0 then 0
      else let q = max (ilog 2 x) (- 1022) - 52
           in of_int (round_half_even (x / 2 powi q)) * 2 powi q)"

text \<open>
  \<open>str(f)\<close> of a float is the shortest decimal string that reads back as \<open>f\<close>, the one
  nearest to \<open>f\<close> among those of that length and, when two are equally near, the one
  whose last digit is even; \<open>float_repr f\<close> is the value of \<open>Decimal(str(f))\<close>.
  \<open>shortest_cand n f\<close> tries the two decimals of \<open>n\<close> significant digits around \<open>f\<close>,
  \<open>m * q\<close> and \<open>(m + 1) * q\<close>; 17 digits always suffice for a double.
\<close>

definition pick_cand :: "rat \<Rightarrow> rat \<Rightarrow> int \<Rightarrow> rat option" where
  "pick_cand f q m =
     (if float_round (of_int m * q) = f \<and> float_round (of_int m * q + q) = f
      then Some (if f - of_int m * q < of_int m * q + q - f then of_int m * q
                 else if of_int m * q + q - f < f - of_int m * q then of_int m * q + q
                 else if even m then of_int m * q else of_int m * q + q)
      else if float_round (of_int m * q) = f then Some (of_int m * q)
      else if float_round (of_int m * q + q) = f then Some (of_int m * q + q)
      else None)"

definition cand_at :: "rat \<Rightarrow> rat \<Rightarrow> rat option" where
  "cand_at f q = pick_cand f q \<lfloor>f / q\<rfloor>"

definition shortest_cand :: "int \<Rightarrow> rat \<Rightarrow> rat option" where
  "shortest_cand n f = cand_at f (10 powi (ilog 10 f - n + 1))"

function shortest_from :: "int \<Rightarrow> rat \<Rightarrow> rat" where
  "shortest_from n f =
     (if 17 < n then f
      else case shortest_cand n f of Some c \<Rightarrow> c | None \<Rightarrow> shortest_from (n + 1) f)"
  by pat_completeness auto
termination
  by (relation "measure (\<lambda>(n, f). nat (18 - n))") auto

declare shortest_from.simps [simp del]

definition float_repr :: "rat \<Rightarrow> rat" where
  "float_repr f = (if f = 0 then 0 else shortest_from 1 f)"

section \<open>Exchange rate resolver (\<open>store/utils/currency.py\<close>)\<close>

text \<open>A rates dictionary \<open>Dict[str, float]\<close>, in insertion order.\<close>

type_synonym rates = "(string \<times> rat) list"

definition FALLBACK_USD :: rates where
  "FALLBACK_USD =
     [(''USD'', float_round 1), (''EUR'', float_round (92/100)), (''GBP'', float_round (78/100)),
      (''UAH'', float_round 41), (''RUB'', float_round 92), (''JPY'', float_round 150),
      (''CAD'', float_round (137/100)), (''AUD'', float_round (155/100)),
      (''CNY'', float_round (730/100)), (''PLN'', float_round (398/100))]"

text \<open>A row of the \<open>CurrencyRate\<close> table; \<open>rate\<close> is a \<open>DecimalField(18, 8)\<close>.\<close>

record currency_rate =
  base :: string
  target :: string
  rate :: rat
  fetched_at :: rat

text \<open>
  The resolver's mutable state: the module globals \<open>_CACHE\<close> and \<open>_CACHE_TS\<close> and the
  \<open>CurrencyRate\<close> table, its rows in insertion order.
\<close>

record resolver =
  cache :: "string \<rightharpoonup> rates"
  cache_ts :: "string \<rightharpoonup> rat"
  rate_rows :: "currency_rate list"

text \<open>
  What a call reads from outside: the clock \<open>time.time()\<close>, the setting
  \<open>CURRENCY_FETCH_ENABLED\<close>, the outcome of the HTTP request for a base currency
  (\<open>None\<close> for any exception, otherwise the items of the response's \<open>rates\<close> object
  with their values as floats) and whether queries on \<open>CurrencyRate\<close> succeed.
\<close>

record world =
  now :: rat
  fetch_enabled :: bool
  http_get :: "string \<Rightarrow> rates option"
  db_up :: bool

definition TTL_SECONDS :: rat where
  "TTL_SECONDS = 60 * 60"

definition supported :: "string \<Rightarrow> bool" where
  "supported c = (map_of FALLBACK_USD c \<noteq> None)"

text \<open>\<open>CurrencyRate.objects.filter(base=base).order_by('-fetched_at')[:len(_FALLBACK_USD)]\<close>\<close>

definition latest_rows :: "currency_rate list \<Rightarrow> string \<Rightarrow> currency_rate list" where
  "latest_rows rows b =
     take (length FALLBACK_USD) (sort_key (\<lambda>r. - fetched_at r) (filter (\<lambda>r. base r = b) rows))"

text \<open>
  Reading a \<open>DecimalField\<close> back from SQLite.  The column holds a REAL, the double nearest
  to the value written; the backend's converter makes a Decimal of it with
  \<open>Context(prec=15).create_decimal_from_float\<close> (\<open>round_sig 15\<close>) and quantizes that to the
  field's decimal places under a context of the field's \<open>max_digits\<close>.
\<close>

definition round_sig :: "nat \<Rightarrow> rat \<Rightarrow> rat" where
  "round_sig p x =
     (if x = 0 then 0
      else of_int (round_half_even (x / 10 powi (ilog 10 x - int p + 1)))
             * 10 powi (ilog 10 x - int p + 1))"

definition sqlite_decimal :: "nat \<Rightarrow> nat \<Rightarrow> rat \<Rightarrow> error + rat" where
  "sqlite_decimal max_digits decimal_places x =
     quantize ROUND_HALF_EVEN max_digits decimal_places (round_sig 15 (float_round x))"

text \<open>\<open>r.rate\<close> of a row that has been fetched: \<open>rate\<close> is a \<open>DecimalField(18, 8)\<close>.\<close>

definition read_rate :: "currency_rate \<Rightarrow> error + rat" where
  "read_rate r = sqlite_decimal 18 8 (rate r)"

text \<open>
  \<open>{r.target: float(r.rate) for r in recs if r.target in _FALLBACK_USD}\<close>: the rows are
  visited in order and a later row overwrites the entry of an earlier one.
\<close>

definition db_rates :: "currency_rate list \<Rightarrow> rates" where
  "db_rates recs =
     fold (\<lambda>r m. AList.update (target r) (float_round (projr (read_rate r))) m)
       (filter (\<lambda>r. supported (target r)) recs) []"

text \<open>
  The stored-rows tier, inside \<open>try ... except Exception: pass\<close>: a failing query, or a
  fetched row whose rate the converter refuses, gives nothing.
\<close>

definition db_lookup :: "world \<Rightarrow> resolver \<Rightarrow> string \<Rightarrow> rates option" where
  "db_lookup w r b =
     (if \<not> db_up w \<or> \<not> list_all (\<lambda>x. \<not> isl (read_rate x)) (latest_rows (rate_rows r) b) then None
      else if latest_rows (rate_rows r) b \<noteq> [] \<and> db_rates (latest_rows (rate_rows r) b) \<noteq> []
      then Some (db_rates (latest_rows (rate_rows r) b))
      else None)"

definition static_rates :: "string \<Rightarrow> rates" where
  "static_rates b =
     (if b = ''USD'' then FALLBACK_USD
      else case map_of FALLBACK_USD b of
             Some rate_base \<Rightarrow> map (\<lambda>(cur, val). (cur, float_round (val / rate_base))) FALLBACK_USD
           | None \<Rightarrow> FALLBACK_USD)"

definition put_cache :: "resolver \<Rightarrow> string \<Rightarrow> rates \<Rightarrow> rat \<Rightarrow> resolver" where
  "put_cache r b d t = r\<lparr>cache := (cache r)(b \<mapsto> d), cache_ts := (cache_ts r)(b \<mapsto> t)\<rparr>"

text \<open>
  The stored-rows tier followed by the static table: the code of \<open>_fetch_rates\<close> has
  this sequence twice, once under the disabled flag and once after a failed request.
\<close>

definition fallback_rates :: "world \<Rightarrow> resolver \<Rightarrow> string \<Rightarrow> rates \<times> resolver" where
  "fallback_rates w r b =
     (case db_lookup w r b of
        Some d \<Rightarrow> (d, put_cache r b d (now w))
      | None \<Rightarrow> (static_rates b, r))"

text \<open>The response filtered to the supported currencies (empty when the request failed).\<close>

definition live_rates :: "world \<Rightarrow> string \<Rightarrow> rates" where
  "live_rates w b =
     (case http_get w b of
        None \<Rightarrow> []
      | Some raw \<Rightarrow> fold (\<lambda>(k, v) m. AList.update k v m) (filter (\<lambda>(k, v). supported k) raw) [])"

text \<open>
  \<open>bulk_create\<close> of the fetched rates inside \<open>transaction.atomic()\<close>, best effort: every
  rate must fit \<open>DecimalField(max_digits=18, decimal_places=8)\<close>, else nothing is stored.
\<close>

definition store_rate :: "rat \<Rightarrow> error + rat" where
  "store_rate v = quantize ROUND_HALF_EVEN 18 8 (float_repr v)"

definition persist_rates :: "world \<Rightarrow> resolver \<Rightarrow> string \<Rightarrow> rates \<Rightarrow> resolver" where
  "persist_rates w r b filtered =
     (if db_up w \<and> list_all (\<lambda>(t, v). isl (store_rate v) = False) filtered
      then r\<lparr>rate_rows := rate_rows r @
             map (\<lambda>(t, v). \<lparr>base = b, target = t, rate = projr (store_rate v), fetched_at = now w\<rparr>)
               filtered\<rparr>
      else r)"

definition refresh_rates :: "world \<Rightarrow> resolver \<Rightarrow> string \<Rightarrow> rates \<times> resolver" where
  "refresh_rates w r b =
     (if \<not> fetch_enabled w then fallback_rates w r b
      else if live_rates w b \<noteq> []
      then (live_rates w b, persist_rates w (put_cache r b (live_rates w b) (now w)) b (live_rates w b))
      else fallback_rates w r b)"

definition fetch_rates :: "world \<Rightarrow> resolver \<Rightarrow> string \<Rightarrow> rates \<times> resolver" where
  "fetch_rates w r b =
     (case cache r b of
        Some c \<Rightarrow>
          if now w - (case cache_ts r b of Some t \<Rightarrow> t | None \<Rightarrow> 0) < TTL_SECONDS then (c, r)
          else refresh_rates w r b
      | None \<Rightarrow> refresh_rates w r b)"

text \<open>
  The pivot through USD in \<open>convert_amount\<close>: both rates must be present and non-zero
  (\<open>if r_from and r_to\<close>); any exception of the computation is swallowed, which is the
  result \<open>None\<close> as well.
\<close>

definition usd_pivot :: "rates \<Rightarrow> rat \<Rightarrow> string \<Rightarrow> string \<Rightarrow> rat option" where
  "usd_pivot usd_rates amount from_currency to_currency =
     (case (map_of usd_rates from_currency, map_of usd_rates to_currency) of
        (Some r_from, Some r_to) \<Rightarrow>
          if r_from = 0 \<or> r_to = 0 then None
          else (case dec_div amount (float_repr r_from) of
                  Inl e \<Rightarrow> None
                | Inr d \<Rightarrow> (case dec_mul d (float_repr r_to) of
                             Inl e \<Rightarrow> None
                           | Inr converted \<Rightarrow> (case quantize_cents converted of
                                                Inl e \<Rightarrow> None
                                              | Inr v \<Rightarrow> Some v)))
      | _ \<Rightarrow> None)"

definition convert_direct :: "rat \<Rightarrow> rat \<Rightarrow> error + rat" where
  "convert_direct amount rate_to =
     (case dec_mul amount (float_repr rate_to) of
        Inl e \<Rightarrow> Inl e
      | Inr converted \<Rightarrow> quantize_cents converted)"

definition convert_amount ::
  "world \<Rightarrow> resolver \<Rightarrow> rat \<Rightarrow> string \<Rightarrow> string \<Rightarrow> (error + rat) \<times> resolver" where
  "convert_amount w r amount from_currency to_currency =
     (if from_currency = to_currency then (quantize_cents amount, r)
      else case map_of (fst (fetch_rates w r from_currency)) to_currency of
             None \<Rightarrow>
               (case usd_pivot (fst (fetch_rates w (snd (fetch_rates w r from_currency)) ''USD''))
                       amount from_currency to_currency of
                  Some v \<Rightarrow> (Inr v, snd (fetch_rates w (snd (fetch_rates w r from_currency)) ''USD''))
                | None \<Rightarrow> (quantize_cents amount,
                            snd (fetch_rates w (snd (fetch_rates w r from_currency)) ''USD'')))
           | Some rate_to \<Rightarrow> (convert_direct amount rate_to, snd (fetch_rates w r from_currency)))"

text \<open>A process that has fetched nothing yet, with live fetching switched off and an empty rate table.\<close>

definition fresh_resolver :: resolver where
  "fresh_resolver = \<lparr>cache = Map.empty, cache_ts = Map.empty, rate_rows = []\<rparr>"

definition offline_world :: world where
  "offline_world = \<lparr>now = 0, fetch_enabled = False, http_get = (\<lambda>b. None), db_up = True\<rparr>"

section \<open>Wallet (\<open>store/models.py\<close>)\<close>

text \<open>
  The fields of \<open>UserProfile\<close> the wallet uses.  The same record describes the object a
  request holds in memory and its row in the database.
\<close>

record profile =
  balance :: rat
  preferred_currency :: string
  total_spent :: rat

text \<open>A row of \<open>WalletTransaction\<close> (the free-text \<open>description\<close> and the timestamp are left out).\<close>

record wallet_transaction =
  tx_amount :: rat
  tx_currency :: string
  tx_source_amount :: "rat option"
  tx_source_currency :: "string option"
  tx_kind :: string
  tx_balance_after :: rat

text \<open>The persistent state of one user: the profile row and the wallet log in creation order.\<close>

record store =
  profile_row :: profile
  wallet_txs :: "wallet_transaction list"

text \<open>
  Writing a Decimal to a \<open>DecimalField(max_digits, decimal_places)\<close>: with the SQLite
  backend of \<open>settings.py\<close> the framework (Django up to 5.1, through \<open>format_number\<close>)
  quantizes the value to the field's places under a context of precision \<open>max_digits\<close> and
  the default rounding \<open>ROUND_HALF_EVEN\<close>; a value that needs more digits raises
  InvalidOperation and nothing is written.  The repository does not pin the framework
  version.  A later version hands the value to the driver as it is and leaves the
  quantization to the converter that reads the column (\<open>sqlite_decimal\<close>); for values of
  at most 15 significant digits that fit the field, which is every amount with two places
  below \<open>10^10\<close>, the row a later request reads is the same either way.  The stored rows of
  \<open>store\<close> hold the value as a later request reads it.
\<close>

definition decimal_field :: "nat \<Rightarrow> nat \<Rightarrow> rat \<Rightarrow> error + rat" where
  "decimal_field max_digits decimal_places x = quantize ROUND_HALF_EVEN max_digits decimal_places x"

text \<open>\<open>self.save(update_fields=['balance'])\<close>, \<open>balance = DecimalField(12, 2)\<close>.\<close>

definition save_balance :: "profile \<Rightarrow> store \<Rightarrow> error + store" where
  "save_balance self st =
     (case decimal_field 12 2 (balance self) of
        Inl e \<Rightarrow> Inl e
      | Inr b \<Rightarrow> Inr (st\<lparr>profile_row := (profile_row st)\<lparr>balance := b\<rparr>\<rparr>))"


text \<open>\<open>self.save(update_fields=['total_spent'])\<close>, \<open>total_spent = DecimalField(10, 2)\<close>.\<close>

definition save_total_spent :: "profile \<Rightarrow> store \<Rightarrow> error + store" where
  "save_total_spent self st =
     (case decimal_field 10 2 (total_spent self) of
        Inl e \<Rightarrow> Inl e
      | Inr t \<Rightarrow> Inr (st\<lparr>profile_row := (profile_row st)\<lparr>total_spent := t\<rparr>\<rparr>))"

text \<open>\<open>cur = currency or self.preferred_currency\<close>: \<open>None\<close> and the empty string are falsy.\<close>

definition or_preferred :: "string option \<Rightarrow> profile \<Rightarrow> string" where
  "or_preferred ccy self =
     (case ccy of None \<Rightarrow> preferred_currency self
      | Some c \<Rightarrow> if c = [] then preferred_currency self else c)"

text \<open>
  \<open>try: x = convert_amount(amt, from, to) except Exception: pass\<close>: an exception of
  \<open>convert_amount\<close> is swallowed and the amount is kept as it is.
\<close>

definition try_convert :: "world \<Rightarrow> resolver \<Rightarrow> rat \<Rightarrow> string \<Rightarrow> string \<Rightarrow> rat \<times> resolver" where
  "try_convert w r amt from_currency to_currency =
     (case fst (convert_amount w r amt from_currency to_currency) of
        Inr v \<Rightarrow> v
      | Inl e \<Rightarrow> amt,
      snd (convert_amount w r amt from_currency to_currency))"

text \<open>The conversion step shared by \<open>add_balance\<close> and \<open>deduct_balance\<close>.\<close>

definition to_preferred :: "world \<Rightarrow> resolver \<Rightarrow> profile \<Rightarrow> rat \<Rightarrow> string \<Rightarrow> rat \<times> resolver" where
  "to_preferred w r self amt cur =
     (if cur \<noteq> preferred_currency self then try_convert w r amt cur (preferred_currency self)
      else (amt, r))"

text \<open>
  What \<open>Decimal(str(amount))\<close> makes of an amount argument: the constructor raises
  (\<open>Unparsable\<close>), or it returns a NaN, quiet or signalling, which it accepts but which
  every comparison refuses with InvalidOperation (\<open>NaN\<close>), or it returns a finite number
  (\<open>Num\<close>).  Infinite amounts are left out.
\<close>

datatype amount = Unparsable | NaN | Num rat

text \<open>
  \<open>UserProfile.add_balance(amount, currency, save)\<close>.  The conversion of the argument is
  inside a \<open>try\<close> that returns; the test \<open>amt <= 0\<close> is outside it.  The result is the
  object in memory and the database after the call, or the exception that leaves the
  method.
\<close>

definition add_balance ::
  "world \<Rightarrow> resolver \<Rightarrow> profile \<Rightarrow> store \<Rightarrow> amount \<Rightarrow> string option \<Rightarrow> bool
     \<Rightarrow> (error + profile \<times> store) \<times> resolver" where
  "add_balance w r self st amt_arg ccy save =
     (case amt_arg of
        Unparsable \<Rightarrow> (Inr (self, st), r)
      | NaN \<Rightarrow> (Inl InvalidOperation, r)
      | Num amt \<Rightarrow>
          if amt \<le> 0 then (Inr (self, st), r)
          else (case dec_add (balance self) (fst (to_preferred w r self amt (or_preferred ccy self))) of
                  Inl e \<Rightarrow> Inl e
                | Inr nb \<Rightarrow>
                    if save
                    then (case save_balance (self\<lparr>balance := nb\<rparr>) st of
                            Inl e \<Rightarrow> Inl e
                          | Inr st' \<Rightarrow> Inr (self\<lparr>balance := nb\<rparr>, st'))
                    else Inr (self\<lparr>balance := nb\<rparr>, st),
                snd (to_preferred w r self amt (or_preferred ccy self))))"

text \<open>\<open>UserProfile.deduct_balance(amount, currency, allow_negative, save)\<close>; it returns a bool.\<close>

definition deduct_balance ::
  "world \<Rightarrow> resolver \<Rightarrow> profile \<Rightarrow> store \<Rightarrow> amount \<Rightarrow> string option \<Rightarrow> bool \<Rightarrow> bool
     \<Rightarrow> (error + bool \<times> profile \<times> store) \<times> resolver" where
  "deduct_balance w r self st amt_arg ccy allow_negative save =
     (case amt_arg of
        Unparsable \<Rightarrow> (Inr (False, self, st), r)
      | NaN \<Rightarrow> (Inl InvalidOperation, r)
      | Num amt \<Rightarrow>
          if amt \<le> 0 then (Inr (False, self, st), r)
          else (case dec_sub (balance self) (fst (to_preferred w r self amt (or_preferred ccy self))) of
                  Inl e \<Rightarrow> Inl e
                | Inr new_balance \<Rightarrow>
                    if \<not> allow_negative \<and> new_balance < 0 then Inr (False, self, st)
                    else if save
                    then (case save_balance (self\<lparr>balance := new_balance\<rparr>) st of
                            Inl e \<Rightarrow> Inl e
                          | Inr st' \<Rightarrow> Inr (True, self\<lparr>balance := new_balance\<rparr>, st'))
                    else Inr (True, self\<lparr>balance := new_balance\<rparr>, st),
                snd (to_preferred w r self amt (or_preferred ccy self))))"


section \<open>Wallet views (\<open>store/views.py\<close>)\<close>

text \<open>
  \<open>WalletTransaction.objects.create(...)\<close>: the three decimal columns are
  \<open>DecimalField(12, 2)\<close>.  The row is appended when the INSERT succeeds (\<open>db_ok\<close>) and
  every value fits its column; otherwise an exception is raised and no row is written.
\<close>

definition create_tx :: "bool \<Rightarrow> wallet_transaction \<Rightarrow> store \<Rightarrow> store option" where
  "create_tx db_ok row st =
     (if \<not> db_ok then None
      else case decimal_field 12 2 (tx_amount row) of
             Inl e \<Rightarrow> None
           | Inr a \<Rightarrow>
               (case decimal_field 12 2 (tx_balance_after row) of
                  Inl e \<Rightarrow> None
                | Inr b \<Rightarrow>
                    (case tx_source_amount row of
                       None \<Rightarrow>
                         Some (st\<lparr>wallet_txs := wallet_txs st @
                                 [row\<lparr>tx_amount := a, tx_balance_after := b\<rparr>]\<rparr>)
                     | Some sa \<Rightarrow>
                         (case decimal_field 12 2 sa of
                            Inl e \<Rightarrow> None
                          | Inr sa' \<Rightarrow>
                              Some (st\<lparr>wallet_txs := wallet_txs st @
                                      [row\<lparr>tx_amount := a, tx_source_amount := Some sa',
                                           tx_balance_after := b\<rparr>]\<rparr>)))))"

text \<open>What a request ends with.\<close>

datatype outcome =
  Rejected            \<comment> \<open>validation message, nothing done\<close>
  | Raised error      \<comment> \<open>an exception leaves the view\<close>
  | Done              \<comment> \<open>completed; a wallet movement, if any, is in the log\<close>
  | LogLost           \<comment> \<open>completed, but the wallet movement has no log row\<close>
  | RolledBack        \<comment> \<open>completed, but the database transaction was rolled back\<close>

text \<open>
  \<open>WalletTopupView.post\<close>.  \<open>amt_raw\<close> is what \<open>Decimal(amt_raw)\<close> makes of the posted
  amount (InvalidOperation is caught and answered with a message; a NaN passes and the
  test \<open>amt <= 0\<close> raises), \<open>currency_raw\<close> the posted currency (empty when absent) and
  \<open>log_ok\<close> tells whether the INSERT of the log row succeeds.  The view runs outside any
  transaction: each write is committed on its own.
\<close>

definition min_topup :: "world \<Rightarrow> resolver \<Rightarrow> string \<Rightarrow> rat \<times> resolver" where
  "min_topup w r chosen =
     (case fst (convert_amount w r 1 ''USD'' chosen) of
        Inr v \<Rightarrow> v
      | Inl e \<Rightarrow> (if chosen = ''USD'' then 1 else 0),
      snd (convert_amount w r 1 ''USD'' chosen))"

definition topup_credited :: "world \<Rightarrow> resolver \<Rightarrow> rat \<Rightarrow> string \<Rightarrow> string \<Rightarrow> rat \<times> resolver" where
  "topup_credited w r amt chosen target_cur =
     (if chosen \<noteq> target_cur then try_convert w r amt chosen target_cur else (amt, r))"

definition topup_row :: "rat \<Rightarrow> rat \<Rightarrow> rat \<Rightarrow> string \<Rightarrow> string \<Rightarrow> wallet_transaction" where
  "topup_row delta bal amt chosen target_cur =
     \<lparr>tx_amount = delta, tx_currency = target_cur,
      tx_source_amount = (if chosen \<noteq> target_cur then Some amt else None),
      tx_source_currency = (if chosen \<noteq> target_cur then Some chosen else None),
      tx_kind = ''topup'', tx_balance_after = bal\<rparr>"

definition topup_log :: "bool \<Rightarrow> profile \<Rightarrow> profile \<Rightarrow> store \<Rightarrow> rat \<Rightarrow> string \<Rightarrow> outcome \<times> store" where
  "topup_log log_ok prof prof' st' amt chosen =
     (case dec_sub (balance prof') (balance prof) of
        Inl e \<Rightarrow> (Raised e, st')
      | Inr delta \<Rightarrow>
          (case create_tx log_ok
                  (topup_row delta (balance prof') amt chosen (preferred_currency prof)) st' of
             None \<Rightarrow> (LogLost, st')
           | Some st'' \<Rightarrow> (Done, st'')))"

definition topup_credit ::
  "world \<Rightarrow> resolver \<Rightarrow> store \<Rightarrow> rat \<Rightarrow> string \<Rightarrow> bool \<Rightarrow> (outcome \<times> store) \<times> resolver" where
  "topup_credit w r st amt chosen log_ok =
     (case fst (add_balance w (snd (topup_credited w r amt chosen (preferred_currency (profile_row st))))
                  (profile_row st) st
                  (Num (fst (topup_credited w r amt chosen (preferred_currency (profile_row st)))))
                  (Some (preferred_currency (profile_row st))) True) of
        Inl e \<Rightarrow> (Raised e, st)
      | Inr (prof', st') \<Rightarrow> topup_log log_ok (profile_row st) prof' st' amt chosen,
      snd (add_balance w (snd (topup_credited w r amt chosen (preferred_currency (profile_row st))))
             (profile_row st) st
             (Num (fst (topup_credited w r amt chosen (preferred_currency (profile_row st)))))
             (Some (preferred_currency (profile_row st))) True))"

definition chosen_currency :: "string \<Rightarrow> store \<Rightarrow> string" where
  "chosen_currency currency_raw st =
     (if currency_raw = [] then preferred_currency (profile_row st) else currency_raw)"

definition topup_post ::
  "world \<Rightarrow> resolver \<Rightarrow> store \<Rightarrow> amount \<Rightarrow> string \<Rightarrow> bool \<Rightarrow> (outcome \<times> store) \<times> resolver" where
  "topup_post w r st amt_raw currency_raw log_ok =
     (case amt_raw of
        Unparsable \<Rightarrow> ((Rejected, st), r)
      | NaN \<Rightarrow> ((Raised InvalidOperation, st), r)
      | Num amt \<Rightarrow>
          if amt \<le> 0 then ((Rejected, st), r)
          else if amt < fst (min_topup w r (chosen_currency currency_raw st))
          then ((Rejected, st), snd (min_topup w r (chosen_currency currency_raw st)))
          else topup_credit w (snd (min_topup w r (chosen_currency currency_raw st))) st amt
                 (chosen_currency currency_raw st) log_ok)"

text \<open>An \<open>Order\<close>: \<open>total_price\<close> is a \<open>DecimalField(10, 2)\<close>.\<close>

record order =
  total_price :: rat
  currency :: string
  status :: string

text \<open>\<open>UserProfile.add_spending(amount)\<close>, for an amount that is already a Decimal.\<close>

definition add_spending :: "profile \<Rightarrow> store \<Rightarrow> rat \<Rightarrow> error + profile \<times> store" where
  "add_spending self st amt =
     (case dec_add (total_spent self) amt of
        Inl e \<Rightarrow> Inl e
      | Inr t \<Rightarrow>
          (case save_total_spent (self\<lparr>total_spent := t\<rparr>) st of
             Inl e \<Rightarrow> Inl e
           | Inr st' \<Rightarrow> Inr (self\<lparr>total_spent := t\<rparr>, st')))"

text \<open>
  \<open>PaymentView.post\<close> runs its writes inside \<open>transaction.atomic()\<close> and swallows every
  exception.  Under the framework's rule an exception raised while a row is being written
  (here InvalidOperation from a \<open>DecimalField\<close>, or a failed INSERT) marks the transaction
  for rollback even though the view catches it, and the block then rolls everything back
  on exit; an exception of the Decimal arithmetic (Overflow) is just swallowed.  The three
  ways a part of the block can end:
\<close>

datatype attempt =
  Proceed bool profile store   \<comment> \<open>go on; the flag tells whether a log row was lost\<close>
  | Swallow store              \<comment> \<open>exception swallowed by the outer \<open>except\<close>; commit what was written\<close>
  | Abort                      \<comment> \<open>marked for rollback\<close>

definition to_charge :: "world \<Rightarrow> resolver \<Rightarrow> profile \<Rightarrow> order \<Rightarrow> rat \<times> resolver" where
  "to_charge w r prof ord =
     (if currency ord \<noteq> preferred_currency prof
      then try_convert w r (total_price ord) (currency ord) (preferred_currency prof)
      else (total_price ord, r))"

definition purchase_row :: "rat \<Rightarrow> profile \<Rightarrow> order \<Rightarrow> wallet_transaction" where
  "purchase_row a prof' ord =
     \<lparr>tx_amount = a, tx_currency = preferred_currency prof',
      tx_source_amount = Some (total_price ord), tx_source_currency = Some (currency ord),
      tx_kind = ''purchase_deduct'', tx_balance_after = balance prof'\<rparr>"

text \<open>The log row of a deduction: \<open>amount = (before - prof.balance) * Decimal('-1')\<close>.\<close>

definition purchase_log :: "bool \<Rightarrow> profile \<Rightarrow> profile \<Rightarrow> store \<Rightarrow> order \<Rightarrow> attempt" where
  "purchase_log log_ok prof prof' st' ord =
     (case dec_sub (balance prof) (balance prof') of
        Inl e \<Rightarrow> Proceed True prof' st'
      | Inr d \<Rightarrow>
          (case dec_mul d (- 1) of
             Inl e \<Rightarrow> Proceed True prof' st'
           | Inr a \<Rightarrow>
               (case create_tx log_ok (purchase_row a prof' ord) st' of
                  None \<Rightarrow> Abort
                | Some st'' \<Rightarrow> Proceed False prof' st'')))"

definition wallet_charge ::
  "world \<Rightarrow> resolver \<Rightarrow> store \<Rightarrow> order \<Rightarrow> bool \<Rightarrow> bool \<Rightarrow> attempt \<times> resolver" where
  "wallet_charge w r st ord use_wallet log_ok =
     (if use_wallet \<and> 0 < balance (profile_row st)
      then (if fst (to_charge w r (profile_row st) ord) \<le> balance (profile_row st)
            then (case fst (deduct_balance w (snd (to_charge w r (profile_row st) ord))
                             (profile_row st) st (Num (fst (to_charge w r (profile_row st) ord)))
                             (Some (preferred_currency (profile_row st))) False True) of
                    Inl e \<Rightarrow> (if e = InvalidOperation then Abort else Swallow st)
                  | Inr (ok, prof', st') \<Rightarrow>
                      if ok then purchase_log log_ok (profile_row st) prof' st' ord
                      else Proceed False prof' st',
                  snd (deduct_balance w (snd (to_charge w r (profile_row st) ord))
                         (profile_row st) st (Num (fst (to_charge w r (profile_row st) ord)))
                         (Some (preferred_currency (profile_row st))) False True))
            else (Proceed False (profile_row st) st, snd (to_charge w r (profile_row st) ord)))
      else (Proceed False (profile_row st) st, r))"

definition payment_commit :: "attempt \<Rightarrow> order \<Rightarrow> store \<Rightarrow> outcome \<times> order \<times> store" where
  "payment_commit a ord st =
     (case a of
        Abort \<Rightarrow> (RolledBack, ord, st)
      | Swallow st1 \<Rightarrow> (Done, ord\<lparr>status := ''paid''\<rparr>, st1)
      | Proceed lost prof1 st1 \<Rightarrow>
          (case add_spending prof1 st1 (total_price ord) of
             Inl e \<Rightarrow>
               if e = InvalidOperation then (RolledBack, ord, st)
               else (if lost then LogLost else Done, ord\<lparr>status := ''paid''\<rparr>, st1)
           | Inr (prof2, st2) \<Rightarrow> (if lost then LogLost else Done, ord\<lparr>status := ''paid''\<rparr>, st2)))"

definition payment_post ::
  "world \<Rightarrow> resolver \<Rightarrow> store \<Rightarrow> order \<Rightarrow> bool \<Rightarrow> bool \<Rightarrow> (outcome \<times> order \<times> store) \<times> resolver" where
  "payment_post w r st ord use_wallet log_ok =
     (if status ord = ''paid'' then ((Done, ord, st), r)
      else (payment_commit (fst (wallet_charge w r st ord use_wallet log_ok)) ord st,
            snd (wallet_charge w r st ord use_wallet log_ok)))"

section \<open>The ledger\<close>

text \<open>
  Each row's \<open>balance_after\<close> is the running sum of the amounts up to and including that
  row, in creation order; the balance is the sum of all amounts.
\<close>

fun running_totals :: "rat \<Rightarrow> wallet_transaction list \<Rightarrow> bool" where
  "running_totals acc [] = True"
| "running_totals acc (t # ts) =
     (tx_balance_after t = acc + tx_amount t \<and> running_totals (acc + tx_amount t) ts)"

definition ledger_ok :: "store \<Rightarrow> bool" where
  "ledger_ok st =
     (balance (profile_row st) = sum_list (map tx_amount (wallet_txs st))
      \<and> running_totals 0 (wallet_txs st))"

text \<open>A request to the wallet, with what the environment does to it.\<close>

datatype request =
  Topup amount string bool   \<comment> \<open>amount, currency, whether the log INSERT succeeds\<close>
  | Pay order bool bool            \<comment> \<open>order, \<open>use_wallet\<close>, whether the log INSERT succeeds\<close>

fun serve :: "world \<Rightarrow> request \<Rightarrow> store \<times> resolver \<Rightarrow> outcome \<times> store \<times> resolver" where
  "serve w (Topup amt_raw currency_raw log_ok) (st, r) =
     (fst (fst (topup_post w r st amt_raw currency_raw log_ok)),
      snd (fst (topup_post w r st amt_raw currency_raw log_ok)),
      snd (topup_post w r st amt_raw currency_raw log_ok))"
| "serve w (Pay ord use_wallet log_ok) (st, r) =
     (fst (fst (payment_post w r st ord use_wallet log_ok)),
      snd (snd (fst (payment_post w r st ord use_wallet log_ok))),
      snd (payment_post w r st ord use_wallet log_ok))"

text \<open>A sequence of requests, each with the world it runs in; the outcomes are collected.\<close>

fun serve_all :: "(world \<times> request) list \<Rightarrow> store \<times> resolver \<Rightarrow> outcome list \<times> store \<times> resolver" where
  "serve_all [] (st, r) = ([], st, r)"
| "serve_all ((w, q) # qs) (st, r) =
     (case serve w q (st, r) of
        (out, st', r') \<Rightarrow>
          (case serve_all qs (st', r') of (outs, st'', r'') \<Rightarrow> (out # outs, st'', r'')))"

text \<open>Amounts with at most two fractional digits.\<close>

definition is_cents :: "rat \<Rightarrow> bool" where
  "is_cents x = (of_int \<lfloor>x * 100\<rfloor> = x * 100)"

definition cents_request :: "request \<Rightarrow> bool" where
  "cents_request q =
     (case q of
        Topup amt_raw currency_raw log_ok \<Rightarrow> (case amt_raw of Num a \<Rightarrow> is_cents a | _ \<Rightarrow> True)
      | Pay ord use_wallet log_ok \<Rightarrow> is_cents (total_price ord))"

text \<open>A fresh user: balance 0, nothing spent, an empty log.\<close>

definition fresh_store :: "string \<Rightarrow> store" where
  "fresh_store ccy =
     \<lparr>profile_row = \<lparr>balance = 0, preferred_currency = ccy, total_spent = 0\<rparr>, wallet_txs = []\<rparr>"

text \<open>A user holding 10.00 USD.\<close>

definition ten_usd :: profile where
  "ten_usd = \<lparr>balance = 10, preferred_currency = ''USD'', total_spent = 0\<rparr>"

definition ten_usd_store :: store where
  "ten_usd_store = \<lparr>profile_row = ten_usd, wallet_txs = []\<rparr>"

text \<open>
  What a request keeps as long as no log write is lost: the ledger is consistent and the
  stored balance is a value of its column, with two fractional digits and below \<open>10^10\<close>.
\<close>

definition wallet_inv :: "store \<Rightarrow> bool" where
  "wallet_inv st =
     (ledger_ok st \<and> is_cents (balance (profile_row st)) \<and> \<bar>balance (profile_row st)\<bar> < 10 ^ 10)"

text \<open>An order of 1.00 USD that is not paid yet.\<close>

definition usd_order :: order where
  "usd_order = \<lparr>total_price = 1, currency = ''USD'', status = ''pending''\<rparr>"

text \<open>A top-up of 2.00 USD, then the payment of that order from the wallet.\<close>

definition topup_then_pay :: "(world \<times> request) list" where
  "topup_then_pay =
     [(offline_world, Topup (Num 2) ''USD'' True), (offline_world, Pay usd_order True True)]"

text \<open>Two top-ups, of 1.01 USD and of 1.005 USD.\<close>

definition tie_topups :: "(world \<times> request) list" where
  "tie_topups =
     [(offline_world, Topup (Num (101/100)) ''USD'' True),
      (offline_world, Topup (Num (1005/1000)) ''USD'' True)]"

text \<open>The log rows the two views write for a wallet in USD.\<close>

definition topup_tx :: "rat \<Rightarrow> rat \<Rightarrow> wallet_transaction" where
  "topup_tx a b =
     \<lparr>tx_amount = a, tx_currency = ''USD'', tx_source_amount = None,
      tx_source_currency = None, tx_kind = ''topup'', tx_balance_after = b\<rparr>"

definition purchase_tx :: "rat \<Rightarrow> rat \<Rightarrow> rat \<Rightarrow> wallet_transaction" where
  "purchase_tx a sa b =
     \<lparr>tx_amount = a, tx_currency = ''USD'', tx_source_amount = Some sa,
      tx_source_currency = Some ''USD'', tx_kind = ''purchase_deduct'', tx_balance_after = b\<rparr>"




text \<open>
  Two requests that debit the same user.  A request first loads the profile (in the views
  this happens before \<open>transaction.atomic()\<close> is entered) and later calls \<open>deduct_balance\<close>
  on the object it loaded, which tests the object's balance and writes the balance it
  computed.  A session records the database, the object and the return value of each
  request, and the resolver.
\<close>

datatype client = First | Second

datatype step = Load client | Debit client

record session =
  stored :: store
  objects :: "client \<Rightarrow> profile option"
  returned :: "client \<Rightarrow> (error + bool) option"
  rates_state :: resolver

definition run_step :: "world \<Rightarrow> rat \<Rightarrow> step \<Rightarrow> session \<Rightarrow> session" where
  "run_step w amt x s =
     (case x of
        Load c \<Rightarrow> s\<lparr>objects := (objects s)(c := Some (profile_row (stored s)))\<rparr>
      | Debit c \<Rightarrow>
          (case objects s c of
             None \<Rightarrow> s
           | Some prof \<Rightarrow>
               (case fst (deduct_balance w (rates_state s) prof (stored s) (Num amt) None False True) of
                  Inl e \<Rightarrow>
                    s\<lparr>returned := (returned s)(c := Some (Inl e)),
                      rates_state := snd (deduct_balance w (rates_state s) prof (stored s)
                                            (Num amt) None False True)\<rparr>
                | Inr (ok, prof', st') \<Rightarrow>
                    s\<lparr>stored := st', objects := (objects s)(c := Some prof'),
                      returned := (returned s)(c := Some (Inr ok)),
                      rates_state := snd (deduct_balance w (rates_state s) prof (stored s)
                                            (Num amt) None False True)\<rparr>)))"

text \<open>A schedule runs from a state in which nothing is loaded; both requests debit \<open>amt\<close>.\<close>

definition run_schedule :: "world \<Rightarrow> resolver \<Rightarrow> store \<Rightarrow> rat \<Rightarrow> step list \<Rightarrow> session" where
  "run_schedule w r st amt sched =
     fold (run_step w amt) sched
       \<lparr>stored = st, objects = (\<lambda>c. None), returned = (\<lambda>c. None), rates_state = r\<rparr>"

text \<open>
  The steps of one request keep their order; those of two requests interleave in every
  way.  Nothing in the code orders them: there is no lock, no \<open>select_for_update\<close> and no
  version check.
\<close>

fun interleavings :: "'a list \<Rightarrow> 'a list \<Rightarrow> 'a list list" where
  "interleavings [] ys = [ys]"
| "interleavings xs [] = [xs]"
| "interleavings (x # xs) (y # ys) =
     map ((#) x) (interleavings xs (y # ys)) @ map ((#) y) (interleavings (x # xs) ys)"

definition debit_schedules :: "step list list" where
  "debit_schedules = interleavings [Load First, Debit First] [Load Second, Debit Second]"

text \<open>Both requests load the profile before either debits.\<close>

fun stale_read :: "step list \<Rightarrow> bool" where
  "stale_read (Load a # Load b # xs) = True"
| "stale_read xs = False"

definition stale_schedule :: "step list" where
  "stale_schedule = [Load First, Load Second, Debit First, Debit Second]"

definition serial_schedule :: "step list" where
  "serial_schedule = [Load First, Debit First, Load Second, Debit Second]"

text \<open>
  An amount argument the wallet methods ignore: \<open>Decimal\<close> refuses it, or it is a number
  that is not positive.
\<close>

definition invalid_amount :: "amount \<Rightarrow> bool" where
  "invalid_amount a = (case a of Unparsable \<Rightarrow> True | NaN \<Rightarrow> False | Num x \<Rightarrow> x \<le> 0)"

text \<open>A user holding 5.00 USD and no wallet log.\<close>

definition five_usd :: profile where
  "five_usd = \<lparr>balance = 5, preferred_currency = ''USD'', total_spent = 0\<rparr>"

definition five_usd_store :: store where
  "five_usd_store = \<lparr>profile_row = five_usd, wallet_txs = []\<rparr>"

text \<open>
  Whether the pivot of \<open>convert_amount\<close> can be taken: both currencies have a non-zero
  rate in the USD table (\<open>if r_from and r_to\<close>).
\<close>

definition pivot_possible :: "rates \<Rightarrow> string \<Rightarrow> string \<Rightarrow> bool" where
  "pivot_possible usd_rates from_currency to_currency =
     (case (map_of usd_rates from_currency, map_of usd_rates to_currency) of
        (Some r_from, Some r_to) \<Rightarrow> r_from \<noteq> 0 \<and> r_to \<noteq> 0
      | _ \<Rightarrow> False)"

text \<open>No tier yields a rate: the direct rate is absent and the USD pivot is not possible.\<close>

definition no_usable_rate :: "world \<Rightarrow> resolver \<Rightarrow> string \<Rightarrow> string \<Rightarrow> bool" where
  "no_usable_rate w r from_currency to_currency =
     (from_currency \<noteq> to_currency
      \<and> map_of (fst (fetch_rates w r from_currency)) to_currency = None
      \<and> \<not> pivot_possible (fst (fetch_rates w (snd (fetch_rates w r from_currency)) ''USD''))
            from_currency to_currency)"

text \<open>A rate table with an older and a newer record of the pair (USD, EUR).\<close>

definition two_eur_rows :: "currency_rate list" where
  "two_eur_rows =
     [\<lparr>base = ''USD'', target = ''EUR'', rate = 90/100, fetched_at = 1\<rparr>,
      \<lparr>base = ''USD'', target = ''EUR'', rate = 95/100, fetched_at = 2\<rparr>]"

section \<open>Lemmas on the numeric layer\<close>

lemma log_up_bounds:
  "2 \<le> b \<Longrightarrow> 1 \<le> x \<Longrightarrow>
     0 \<le> log_up b x \<and> of_int b powi (log_up b x) \<le> x \<and> x < of_int b powi (log_up b x + 1)"
proof (induction b x rule: log_up.induct)
  case (1 b x)
  show ?case
  proof (cases "of_int b \<le> x")
    case True
    have b0: "(0::rat) < of_int b" using 1(2) by simp
    have x1: "1 \<le> x / of_int b" using True b0 by (simp add: le_divide_eq)
    have cond: "2 \<le> b \<and> of_int b \<le> x" using True 1(2) by simp
    have IH: "0 \<le> log_up b (x / of_int b) \<and> of_int b powi (log_up b (x / of_int b)) \<le> x / of_int b
          \<and> x / of_int b < of_int b powi (log_up b (x / of_int b) + 1)"
      using 1(1) [OF cond 1(2) x1] .
    have eq: "log_up b x = log_up b (x / of_int b) + 1"
      using cond by (subst log_up.simps) simp
    define k where "k = log_up b (x / of_int b)"
    have k: "0 \<le> k" "of_int b powi k \<le> x / of_int b" "x / of_int b < of_int b powi (k + 1)"
      using IH by (simp_all add: k_def)
    have bne: "(of_int b :: rat) \<noteq> 0" using b0 by simp
    have p1: "(of_int b :: rat) powi (k + 1) = of_int b powi k * of_int b"
      using bne by (simp add: power_int_add)
    have p2: "(of_int b :: rat) powi (k + 1 + 1) = of_int b powi (k + 1) * of_int b"
      using bne power_int_add [of "of_int b :: rat" "k + 1" 1] by simp
    have "of_int b powi (k + 1) \<le> x"
      using k(2) b0 by (simp add: p1 le_divide_eq)
    moreover have "x < of_int b powi (k + 1 + 1)"
    proof -
      have "x < of_int b powi (k + 1) * of_int b"
        using k(3) b0 by (simp add: divide_less_eq)
      then show ?thesis by (simp only: p2)
    qed
    ultimately show ?thesis using k(1) by (simp add: eq k_def [symmetric])
  next
    case False
    then have eq: "log_up b x = 0" by (subst log_up.simps) simp
    show ?thesis using False 1(3) by (simp add: eq)
  qed
qed

lemma log_down_bounds:
  "2 \<le> b \<Longrightarrow> 0 < x \<Longrightarrow> x < 1 \<Longrightarrow>
     log_down b x < 0 \<and> of_int b powi (log_down b x) \<le> x \<and> x < of_int b powi (log_down b x + 1)"
proof (induction b x rule: log_down.induct)
  case (1 b x)
  have b0: "(0::rat) < of_int b" using 1(2) by simp
  have bne: "(of_int b :: rat) \<noteq> 0" using b0 by simp
  have cond: "2 \<le> b \<and> 0 < x \<and> x < 1" using 1 by simp
  have eq: "log_down b x = log_down b (x * of_int b) - 1"
    using cond by (subst log_down.simps) simp
  have xb0: "0 < x * of_int b" using 1(3) b0 by simp
  show ?case
  proof (cases "x * of_int b < 1")
    case True
    define k where "k = log_down b (x * of_int b)"
    have k: "k < 0" "of_int b powi k \<le> x * of_int b" "x * of_int b < of_int b powi (k + 1)"
      using 1(1) [OF cond 1(2) xb0 True] by (simp_all add: k_def)
    have p1: "(of_int b :: rat) powi k = of_int b powi (k - 1) * of_int b"
      using bne by (simp add: power_int_minus_mult)
    have p2: "(of_int b :: rat) powi (k + 1) = of_int b powi k * of_int b"
      using bne by (simp add: power_int_add)
    have "of_int b powi (k - 1) \<le> x" using k(2) b0 by (simp add: p1)
    moreover have "x < of_int b powi k" using k(3) b0 by (simp add: p2)
    ultimately show ?thesis using k(1) by (simp add: eq k_def [symmetric])
  next
    case False
    then have z: "log_down b (x * of_int b) = 0" by (subst log_down.simps) simp
    have "1 / of_int b \<le> x" using False b0 by (simp add: divide_le_eq)
    then have "of_int b powi (- 1) \<le> x" by (simp add: power_int_minus_divide)
    then show ?thesis using 1(4) by (simp add: eq z)
  qed
qed

lemma ilog_bounds:
  assumes "2 \<le> b" "x \<noteq> 0"
  shows "of_int b powi (ilog b x) \<le> \<bar>x\<bar> \<and> \<bar>x\<bar> < of_int b powi (ilog b x + 1)"
proof (cases "1 \<le> \<bar>x\<bar>")
  case True
  then show ?thesis using log_up_bounds [OF assms(1) True] by (simp add: ilog_def)
next
  case False
  then have "0 < \<bar>x\<bar>" "\<bar>x\<bar> < 1" using assms(2) by simp_all
  then show ?thesis using log_down_bounds [OF assms(1)] False by (simp add: ilog_def)
qed

lemma ilog_less:
  assumes "2 \<le> b" "x \<noteq> 0" "\<bar>x\<bar> < of_int b powi k"
  shows "ilog b x < k"
proof (rule ccontr)
  assume "\<not> ilog b x < k"
  then have "k \<le> ilog b x" by simp
  then have "(of_int b :: rat) powi k \<le> of_int b powi (ilog b x)"
    using assms(1) by (intro power_int_increasing) simp_all
  with ilog_bounds [OF assms(1,2)] assms(3) show False by linarith
qed

lemma ilog_ge:
  assumes "2 \<le> b" "x \<noteq> 0" "of_int b powi k \<le> \<bar>x\<bar>"
  shows "k \<le> ilog b x"
proof (rule ccontr)
  assume "\<not> k \<le> ilog b x"
  then have "ilog b x + 1 \<le> k" by simp
  then have "(of_int b :: rat) powi (ilog b x + 1) \<le> of_int b powi k"
    using assms(1) by (intro power_int_increasing) simp_all
  with ilog_bounds [OF assms(1,2)] assms(3) show False by linarith
qed

lemma ilog_eqI:
  assumes "2 \<le> b" "x \<noteq> 0" "of_int b powi k \<le> \<bar>x\<bar>" "\<bar>x\<bar> < of_int b powi (k + 1)"
  shows "ilog b x = k"
  using ilog_less [OF assms(1,2,4)] ilog_ge [OF assms(1,2,3)] by simp


lemma round_half_even_of_int [simp]: "round_half_even (of_int m) = m"
  by (simp add: round_half_even_def)

lemma ctx_fix_exact:
  assumes x: "x = of_int n / 10 ^ k" and k: "k \<le> 28" and small: "\<bar>x\<bar> < 10 powi (28 - int k)"
  shows "ctx_fix x = Inr x"
proof (cases "x = 0")
  case True
  then show ?thesis by (simp add: ctx_fix_def)
next
  case False
  define e where "e = ilog 10 x"
  define q where "q = max (e - 27) (- 1000026)"
  have e: "e < 28 - int k"
    using ilog_less [of 10 x "28 - int k"] False small by (simp add: e_def)
  have qk: "q \<le> - int k" using e k by (simp add: q_def)
  define d where "d = nat (- q - int k)"
  have d: "int d = - q - int k" using qk by (simp add: d_def)
  have "q = - int (k + d)" using d by simp
  then have "(10::rat) powi q = 10 powi (- int (k + d))" by simp
  also have "\<dots> = 1 / 10 ^ (k + d)" by (simp only: power_int_minus_divide power_int_of_nat)
  finally have pq: "(10::rat) powi q = 1 / (10 ^ k * 10 ^ d)" by (simp add: power_add)
  have quot: "x / 10 powi q = of_int (n * 10 ^ d)"
    by (simp add: pq x)
  have y: "of_int (round_half_even (x / 10 powi q)) * 10 powi q = x"
    unfolding quot round_half_even_of_int by (simp add: pq x)
  have "ilog 10 x < 999999" using e k by (simp add: e_def)
  then show ?thesis
    using False y by (simp add: ctx_fix_def Let_def e_def [symmetric] q_def [symmetric])
qed

lemma ctx_fix_cents:
  assumes "x = of_int n / 100" "\<bar>x\<bar> < 10 ^ 26"
  shows "ctx_fix x = Inr x"
proof (rule ctx_fix_exact [of x n 2])
  show "x = of_int n / 10 ^ 2" using assms(1) by simp
  show "(2::nat) \<le> 28" by simp
  show "\<bar>x\<bar> < 10 powi (28 - int 2)" using assms(2) by simp
qed

section \<open>Properties of the conversion\<close>

lemma quantize_cents_eq:
  "quantize_cents x =
     (if 10 ^ 28 \<le> \<bar>round_half_up (x * 100)\<bar> then Inl InvalidOperation else Inr (round_half_up_2 x))"
  by (simp add: quantize_cents_def quantize_def round_int_def round_half_up_2_def)

lemma floor_rat_numeral_div [simp]:
  "\<lfloor>(numeral a :: rat) / numeral b\<rfloor> = numeral a div numeral b"
  using floor_divide_of_int_eq [of "numeral a" "numeral b", where ?'a = rat] by simp

lemma floor_rat_neg_numeral_div [simp]:
  "\<lfloor>- ((numeral a :: rat) / numeral b)\<rfloor> = (- numeral a) div numeral b"
  using floor_divide_of_int_eq [of "- numeral a" "numeral b", where ?'a = rat] by simp

text \<open>
  C8 (as amended).  For every decimal \<open>x\<close> whose value rounded half-up to two places has
  at most 28 digits, and every currency code \<open>c\<close>, \<open>convert_amount(x, c, c)\<close> returns
  \<open>x\<close> rounded half-up to two decimal places and leaves the resolver untouched.
\<close>

theorem convert_same_currency_rounds:
  assumes "\<bar>round_half_up (x * 100)\<bar> < 10 ^ 28"
  shows "convert_amount w r x c c = (Inr (round_half_up_2 x), r)"
  using assms by (simp add: convert_amount_def quantize_cents_eq)

theorem convert_same_currency_rounds_witness:
  "\<bar>round_half_up ((1/200) * 100)\<bar> < 10 ^ 28
   \<and> convert_amount offline_world fresh_resolver (1/200) ''USD'' ''USD'' = (Inr (1/100), fresh_resolver)
   \<and> round_half_up_2 (2001/200) = 1001/100"
proof -
  have h: "\<bar>round_half_up ((1/200) * 100)\<bar> < 10 ^ 28"
    by (simp add: round_half_up_def)
  have v: "round_half_up_2 (1/200) = 1/100"
    by (simp add: round_half_up_2_def round_half_up_def)
  have v2: "round_half_up_2 (2001/200) = 1001/100"
    by (simp add: round_half_up_2_def round_half_up_def)
  show ?thesis
    using h v v2 convert_same_currency_rounds [OF h, of offline_world fresh_resolver "''USD''"]
    by simp
qed

text \<open>
  C8 as stated fails for a large amount: \<open>Decimal('1E+26')\<close> quantized to two places
  needs 29 digits, so \<open>convert_amount\<close> raises InvalidOperation instead of returning the
  rounded value.
\<close>

theorem convert_same_currency_counterexample:
  "fst (convert_amount offline_world fresh_resolver (10 ^ 26) ''EUR'' ''EUR'') = Inl InvalidOperation
   \<and> fst (convert_amount offline_world fresh_resolver (10 ^ 26) ''EUR'' ''EUR'')
       \<noteq> Inr (round_half_up_2 (10 ^ 26))"
  by (simp add: convert_amount_def quantize_cents_eq round_half_up_def)

section \<open>Evaluating floats\<close>

lemma floor_rat_one_div [simp]:
  "\<lfloor>(1 :: rat) / numeral b\<rfloor> = 1 div numeral b"
  using floor_divide_of_int_eq [of 1 "numeral b", where ?'a = rat] by simp

lemma float_round_eval:
  assumes "x \<noteq> 0" "2 powi e \<le> \<bar>x\<bar>" "\<bar>x\<bar> < 2 powi (e + 1)" "- 1022 \<le> e"
  shows "float_round x = of_int (round_half_even (x / 2 powi (e - 52))) * 2 powi (e - 52)"
proof -
  have "ilog 2 x = e" using ilog_eqI [of 2 x e] assms by simp
  then show ?thesis using assms by (simp add: float_round_def Let_def max_def)
qed

lemma float_round_1: "float_round 1 = 1"
  by (simp add: float_round_eval [where e = 0] round_half_even_def)



lemma float_round_092: "float_round (23/25) = 8286623314361713 / 9007199254740992"
  by (simp add: float_round_eval [where e = "-1"] round_half_even_def)



lemma float_round_m1:
  "1/2 \<le> x \<Longrightarrow> x < 1 \<Longrightarrow>
     float_round x = of_int (round_half_even (x * 9007199254740992)) / 9007199254740992"
  using float_round_eval [of x "-1"] by (simp add: power_int_minus_divide)

lemma ilog10_092: "ilog 10 (8286623314361713 / 9007199254740992) = - 1"
  by (rule ilog_eqI) (simp_all add: power_int_minus_divide)


lemmas cand_eval = shortest_cand_def cand_at_def pick_cand_def round_half_even_def

lemma float_repr_092: "float_repr (8286623314361713 / 9007199254740992) = 92/100"
proof -
  let ?f = "8286623314361713 / 9007199254740992 :: rat"
  have c1: "shortest_cand 1 ?f = None"
    by (simp add: cand_eval ilog10_092 float_round_m1 float_round_1)
  have c2: "shortest_cand 2 ?f = Some (92/100)"
    by (simp add: cand_eval ilog10_092 float_round_m1)
  show ?thesis
    by (simp add: float_repr_def shortest_from.simps c1 c2)
qed


section \<open>Properties of the resolver\<close>

lemma fetch_offline_fresh:
  "fetch_rates offline_world fresh_resolver b = (static_rates b, fresh_resolver)"
  by (simp add: fetch_rates_def refresh_rates_def fallback_rates_def db_lookup_def
      latest_rows_def fresh_resolver_def offline_world_def)













lemma float_round_09: "float_round (9/10) = 8106479329266893 / 9007199254740992"
  by (simp add: float_round_eval [where e = "-1"] round_half_even_def)

lemma float_round_095: "float_round (19/20) = 4278419646001971 / 4503599627370496"
  by (simp add: float_round_eval [where e = "-1"] round_half_even_def)

lemma float_repr_09: "float_repr (8106479329266893 / 9007199254740992) = 9/10"
proof -
  let ?f = "8106479329266893 / 9007199254740992 :: rat"
  have i: "ilog 10 ?f = - 1"
    by (rule ilog_eqI) (simp_all add: power_int_minus_divide)
  have c1: "shortest_cand 1 ?f = Some (9/10)"
    by (simp add: cand_eval i float_round_m1 float_round_1)
  show ?thesis
    by (simp add: float_repr_def shortest_from.simps c1)
qed

lemma quantize_cents_exact:
  "\<bar>n\<bar> < 10 ^ 28 \<Longrightarrow> quantize_cents (of_int n / 100) = Inr (of_int n / 100)"
  by (auto simp: quantize_cents_eq round_half_up_def round_half_up_2_def)

lemma ilog10_09: "ilog 10 (8106479329266893 / 9007199254740992) = - 1"
  by (rule ilog_eqI) (simp_all add: power_int_minus_divide)

lemma ilog10_095: "ilog 10 (4278419646001971 / 4503599627370496) = - 1"
  by (rule ilog_eqI) (simp_all add: power_int_minus_divide)

lemma read_rate_09: "sqlite_decimal 18 8 (9/10) = Inr (9/10)"
  by (simp add: sqlite_decimal_def float_round_09 round_sig_def ilog10_09 quantize_def
      round_int_def round_half_even_def power_int_minus_divide)

lemma read_rate_095: "sqlite_decimal 18 8 (19/20) = Inr (19/20)"
  by (simp add: sqlite_decimal_def float_round_095 round_sig_def ilog10_095 quantize_def
      round_int_def round_half_even_def power_int_minus_divide)

lemma stale_rates:
  "fetch_rates (offline_world\<lparr>now := 3\<rparr>) (fresh_resolver\<lparr>rate_rows := two_eur_rows\<rparr>) ''USD''
   = ([(''EUR'', float_round (9/10))],
      put_cache (fresh_resolver\<lparr>rate_rows := two_eur_rows\<rparr>) ''USD'' [(''EUR'', float_round (9/10))] 3)"
  by (simp add: fetch_rates_def refresh_rates_def fallback_rates_def db_lookup_def
      latest_rows_def db_rates_def supported_def two_eur_rows_def fresh_resolver_def
      offline_world_def FALLBACK_USD_def read_rate_def read_rate_09 read_rate_095)

text \<open>
  C6 (the code at the failing input).  With two stored records of (USD, EUR), 0.90 fetched
  at time 1 and 0.95 fetched at time 2, the stored-rows tier returns the older rate 0.90:
  the rows are read newest first and the dictionary comprehension lets the later, older
  row overwrite the newer one.  10 USD convert to 9.00 EUR, not 9.50.
\<close>

theorem stale_rate_wins:
  "fst (fetch_rates (offline_world\<lparr>now := 3\<rparr>) (fresh_resolver\<lparr>rate_rows := two_eur_rows\<rparr>) ''USD'')
     = [(''EUR'', float_round (90/100))]
   \<and> float_round (90/100) \<noteq> float_round (95/100)
   \<and> fst (convert_amount (offline_world\<lparr>now := 3\<rparr>) (fresh_resolver\<lparr>rate_rows := two_eur_rows\<rparr>)
            10 ''USD'' ''EUR'') = Inr 9"
proof -
  have m: "dec_mul 10 (9/10) = Inr 9"
    using ctx_fix_cents [of 9 900] by (simp add: dec_mul_def)
  have q: "quantize_cents 9 = Inr 9"
    using quantize_cents_exact [of 900] by simp
  show ?thesis
    using m q
    by (simp add: stale_rates convert_amount_def convert_direct_def float_round_09 float_round_095
        float_repr_09)
qed

lemma static_usd: "static_rates ''USD'' = FALLBACK_USD"
  by (simp add: static_rates_def)





section \<open>Properties of the wallet methods\<close>

lemma deduct_insufficient:
  assumes "0 < amt"
    and "dec_sub (balance self) (fst (to_preferred w r self amt (or_preferred ccy self))) = Inr nb"
    and "nb < 0"
  shows "fst (deduct_balance w r self st (Num amt) ccy False save) = Inr (False, self, st)"
  using assms by (simp add: deduct_balance_def)

lemma deduct_invalid:
  "invalid_amount a \<Longrightarrow> deduct_balance w r self st a ccy allow_negative save = (Inr (False, self, st), r)"
  by (auto simp: invalid_amount_def deduct_balance_def split: amount.splits)

lemma add_invalid:
  "invalid_amount a \<Longrightarrow> add_balance w r self st a ccy save = (Inr (self, st), r)"
  by (auto simp: invalid_amount_def add_balance_def split: amount.splits)

text \<open>
  C2.  Insufficient funds block the mutation: for a positive amount, when
  \<open>allow_negative\<close> is false and the balance minus the converted amount, as
  \<open>deduct_balance\<close> computes it, is below zero, the method returns \<open>False\<close>; the object,
  the stored balance and the wallet log are unchanged (no transaction row is created).
\<close>

theorem deduct_insufficient_funds_blocked:
  assumes "0 < amt"
    and "dec_sub (balance self) (fst (to_preferred w r self amt (or_preferred ccy self))) = Inr nb"
    and "nb < 0"
  shows "fst (deduct_balance w r self st (Num amt) ccy False save) = Inr (False, self, st)"
  using assms by (rule deduct_insufficient)

lemma dec_sub_5_10: "dec_sub 5 10 = Inr (- 5)"
  using ctx_fix_cents [of "- 5" "- 500"] by (simp add: dec_sub_def)

theorem deduct_insufficient_funds_blocked_witness:
  "fst (deduct_balance offline_world fresh_resolver five_usd five_usd_store (Num 10) None False True)
     = Inr (False, five_usd, five_usd_store)
   \<and> balance five_usd = 5 \<and> wallet_txs five_usd_store = []"
proof -
  have h1: "(0::rat) < 10" by simp
  have h2: "dec_sub (balance five_usd)
              (fst (to_preferred offline_world fresh_resolver five_usd 10 (or_preferred None five_usd)))
            = Inr (- 5)"
    using dec_sub_5_10 by (simp add: to_preferred_def or_preferred_def five_usd_def)
  have h3: "(- 5 :: rat) < 0" by simp
  show ?thesis
    using deduct_insufficient_funds_blocked [OF h1 h2 h3, of five_usd_store True]
    by (simp add: five_usd_def five_usd_store_def)
qed

text \<open>
  C10 (as amended).  For an amount that \<open>Decimal\<close> refuses to build, or that is a number
  not above zero, \<open>deduct_balance\<close> returns \<open>False\<close> and \<open>add_balance\<close> returns \<open>None\<close>,
  both leaving the object, the database and the resolver as they were; the value
  \<open>deduct_balance\<close> returns is the one it returns for insufficient funds, so the caller
  cannot tell the two apart.  For a NaN both methods raise InvalidOperation, before they
  have changed anything.
\<close>

theorem invalid_amount_is_silent:
  assumes "invalid_amount a"
  shows "deduct_balance w r self st a ccy allow_negative save = (Inr (False, self, st), r)
       \<and> add_balance w r self st a ccy save = (Inr (self, st), r)
       \<and> (0 < amt \<and> dec_sub (balance self) (fst (to_preferred w r self amt (or_preferred ccy' self))) = Inr nb
            \<and> nb < 0
          \<longrightarrow> fst (deduct_balance w r self st (Num amt) ccy' False save')
                = fst (deduct_balance w r self st a ccy allow_negative save))
       \<and> deduct_balance w r self st NaN ccy allow_negative save = (Inl InvalidOperation, r)
       \<and> add_balance w r self st NaN ccy save = (Inl InvalidOperation, r)"
  using assms deduct_invalid [OF assms] add_invalid [OF assms] deduct_insufficient
  by (simp add: deduct_balance_def add_balance_def)

theorem invalid_amount_is_silent_witness:
  "invalid_amount Unparsable \<and> invalid_amount (Num (- 3)) \<and> invalid_amount (Num 0)
   \<and> deduct_balance offline_world fresh_resolver five_usd five_usd_store (Num (- 3)) None False True
       = (Inr (False, five_usd, five_usd_store), fresh_resolver)
   \<and> add_balance offline_world fresh_resolver five_usd five_usd_store Unparsable (Some ''EUR'') True
       = (Inr (five_usd, five_usd_store), fresh_resolver)
   \<and> fst (deduct_balance offline_world fresh_resolver five_usd five_usd_store (Num 10) None False True)
       = fst (deduct_balance offline_world fresh_resolver five_usd five_usd_store (Num 0) None True True)"
proof -
  have i1: "invalid_amount Unparsable" and i2: "invalid_amount (Num (- 3))" and i3: "invalid_amount (Num 0)"
    by (simp_all add: invalid_amount_def)
  have h2: "dec_sub (balance five_usd)
              (fst (to_preferred offline_world fresh_resolver five_usd 10 (or_preferred None five_usd)))
            = Inr (- 5)"
    using dec_sub_5_10 by (simp add: to_preferred_def or_preferred_def five_usd_def)
  show ?thesis
    using i1 i2 i3 h2
      invalid_amount_is_silent [OF i2, of offline_world fresh_resolver five_usd five_usd_store None False True]
      invalid_amount_is_silent [OF i1, of offline_world fresh_resolver five_usd five_usd_store "Some ''EUR''" False True]
      invalid_amount_is_silent [OF i3, of offline_world fresh_resolver five_usd five_usd_store None True True
         10 None "- 5" True]
    by simp
qed

text \<open>
  C10 as stated fails for a NaN: \<open>Decimal('NaN')\<close> is built without complaint and the test
  \<open>amt <= 0\<close>, which is outside the \<open>try\<close>, raises InvalidOperation, so neither method
  returns.
\<close>

theorem invalid_amount_counterexample:
  "fst (deduct_balance offline_world fresh_resolver five_usd five_usd_store NaN None False True)
     = Inl InvalidOperation
   \<and> fst (deduct_balance offline_world fresh_resolver five_usd five_usd_store NaN None False True)
       \<noteq> Inr (False, five_usd, five_usd_store)
   \<and> fst (add_balance offline_world fresh_resolver five_usd five_usd_store NaN None True)
       = Inl InvalidOperation"
  by (simp add: deduct_balance_def add_balance_def)

lemma is_cents_iff: "is_cents x \<longleftrightarrow> (\<exists>n. x = of_int n / 100)"
proof
  assume "is_cents x"
  then have "x * 100 = of_int \<lfloor>x * 100\<rfloor>" unfolding is_cents_def by (rule sym)
  then have "x = of_int \<lfloor>x * 100\<rfloor> / 100" by linarith
  then show "\<exists>n. x = of_int n / 100" by blast
next
  assume "\<exists>n. x = of_int n / 100"
  then obtain n where "x = of_int n / 100" ..
  then have "x * 100 = of_int n" by simp
  then show "is_cents x" unfolding is_cents_def by (simp only: floor_of_int)
qed

lemma is_centsI: "x = of_int n / 100 \<Longrightarrow> is_cents x"
  using is_cents_iff by blast

lemma quantize_cents_is_cents: "quantize_cents x = Inr v \<Longrightarrow> is_cents v"
proof -
  assume "quantize_cents x = Inr v"
  then have "v = of_int (round_half_up (x * 100)) / 100"
    by (simp add: quantize_cents_eq round_half_up_2_def split: if_splits)
  then show "is_cents v" by (rule is_centsI)
qed

lemma usd_pivot_is_cents: "usd_pivot u a f t = Some v \<Longrightarrow> is_cents v"
  by (auto simp: usd_pivot_def quantize_cents_is_cents split: option.splits if_splits sum.splits)

lemma convert_amount_is_cents:
  assumes "fst (convert_amount w r a f t) = Inr v"
  shows "is_cents v"
  using assms
  by (auto simp: convert_amount_def convert_direct_def quantize_cents_is_cents usd_pivot_is_cents
      split: if_splits option.splits sum.splits)

lemma decimal_field_cents:
  assumes "is_cents x" "\<bar>x\<bar> < 10 ^ 10"
  shows "decimal_field 12 2 x = Inr x"
proof -
  obtain n where x: "x = of_int n / 100" using assms(1) is_cents_iff by blast
  have "\<bar>(of_int n :: rat)\<bar> < 10 ^ 12" using assms(2) by (simp add: x)
  then have "\<bar>n\<bar> < 10 ^ 12"
    by (metis of_int_abs of_int_less_iff of_int_numeral of_int_power)
  then show ?thesis
    by (simp add: decimal_field_def quantize_def round_int_def x)
qed






section \<open>Stored amounts\<close>

text \<open>
  Rounding to a column moves a value by at most half a unit, so a value that fits a
  \<open>DecimalField(12, 2)\<close> is far below the 28 digits of the arithmetic context; on amounts
  with two fractional digits the arithmetic and the column are exact.
\<close>

lemma round_half_even_near:
  "of_int (round_half_even z) \<le> z + 1/2 \<and> z - 1/2 \<le> of_int (round_half_even z)"
proof -
  define f where "f = \<lfloor>z\<rfloor>"
  have f: "of_int f \<le> z" "z < of_int f + 1" unfolding f_def by linarith+
  consider "z - of_int f < 1/2" | "1/2 < z - of_int f" | "z - of_int f = 1/2" by linarith
  then show ?thesis
  proof cases
    case 1
    then have "round_half_even z = f" by (simp add: round_half_even_def Let_def f_def)
    then show ?thesis using 1 f by simp
  next
    case 2
    then have "round_half_even z = f + 1" by (simp add: round_half_even_def Let_def f_def)
    then show ?thesis using 2 f by simp
  next
    case 3
    then have "round_half_even z = f \<or> round_half_even z = f + 1"
      by (simp add: round_half_even_def Let_def f_def)
    then show ?thesis using 3 f by auto
  qed
qed

lemma round_half_even_abs_ge:
  assumes "of_int N \<le> \<bar>z\<bar>" "0 \<le> N"
  shows "N \<le> \<bar>round_half_even z\<bar>"
proof (cases "0 \<le> z")
  case True
  then have "of_int N \<le> z" using assms by simp
  then have "N \<le> \<lfloor>z\<rfloor>" by (simp add: le_floor_iff)
  moreover have "\<lfloor>z\<rfloor> \<le> round_half_even z"
    by (simp add: round_half_even_def Let_def)
  ultimately show ?thesis by linarith
next
  case False
  then have zn: "z \<le> - of_int N" using assms by simp
  have "round_half_even z \<le> - N"
  proof (cases "z - of_int \<lfloor>z\<rfloor> < 1/2")
    case True
    then have "round_half_even z = \<lfloor>z\<rfloor>" by (simp add: round_half_even_def Let_def)
    moreover have "\<lfloor>z\<rfloor> \<le> - N" using zn by (metis floor_mono floor_of_int of_int_minus)
    ultimately show ?thesis by simp
  next
    case c: False
    have "round_half_even z \<le> \<lfloor>z\<rfloor> + 1" by (simp add: round_half_even_def Let_def)
    moreover have "\<lfloor>z\<rfloor> + 1 \<le> - N"
    proof -
      have "of_int \<lfloor>z\<rfloor> < z" using c by linarith
      then have "of_int \<lfloor>z\<rfloor> < (of_int (- N) :: rat)" using zn by simp
      then have "\<lfloor>z\<rfloor> < - N" by (simp only: of_int_less_iff)
      then show ?thesis by simp
    qed
    ultimately show ?thesis by linarith
  qed
  then show ?thesis using assms(2) by linarith
qed

lemma ctx_fix_large:
  assumes big: "10 ^ 26 \<le> \<bar>x\<bar>" and res: "ctx_fix x = Inr y"
  shows "10 ^ 26 \<le> \<bar>y\<bar>"
proof -
  have x0: "x \<noteq> 0" using big by auto
  define e where "e = ilog 10 x"
  have e26: "26 \<le> e"
    using ilog_ge [of 10 x 26] x0 big by (simp add: e_def)
  define q where "q = e - 27"
  have qmax: "max (e - 27) (- 1000026) = q" using e26 by (simp add: q_def)
  have lo: "10 powi e \<le> \<bar>x\<bar>" using ilog_bounds [of 10 x] x0 by (simp add: e_def)
  have pq: "(10::rat) powi e = 10 powi q * 10 ^ 27"
    by (simp add: q_def power_int_diff)
  have q0: "(0::rat) < 10 powi q" by simp
  have "of_int (10 ^ 27) \<le> \<bar>x / 10 powi q\<bar>"
  proof -
    have "10 powi q * 10 ^ 27 \<le> \<bar>x\<bar>" using lo pq by simp
    then have "10 ^ 27 \<le> \<bar>x\<bar> / 10 powi q" using q0 by (simp add: le_divide_eq mult.commute)
    then show ?thesis using q0 by (simp add: abs_divide)
  qed
  then have r: "10 ^ 27 \<le> \<bar>round_half_even (x / 10 powi q)\<bar>"
    using round_half_even_abs_ge [of "10 ^ 27" "x / 10 powi q"] by simp
  define m where "m = round_half_even (x / 10 powi q)"
  have y: "y = of_int m * 10 powi q"
    using res x0 by (simp add: ctx_fix_def Let_def e_def [symmetric] qmax m_def split: if_splits)
  have qm1: "(10::rat) powi (- 1) \<le> 10 powi q"
    using e26 by (intro power_int_increasing) (simp_all add: q_def)
  have "(10::rat) ^ 27 \<le> \<bar>of_int m\<bar>" using r by (simp add: m_def flip: of_int_abs)
  then have "10 ^ 27 * 10 powi (- 1) \<le> \<bar>of_int m :: rat\<bar> * 10 powi q"
    using qm1 by (intro mult_mono) simp_all
  then show ?thesis by (simp add: y abs_mult power_int_minus_divide)
qed

lemma ctx_fix_cents_small:
  assumes "is_cents x" "ctx_fix x = Inr y" "\<bar>y\<bar> < 10 ^ 26"
  shows "y = x"
proof -
  obtain n where x: "x = of_int n / 100" using assms(1) is_cents_iff by blast
  have "\<bar>x\<bar> < 10 ^ 26" using ctx_fix_large [OF _ assms(2)] assms(3) by fastforce
  then have "ctx_fix x = Inr x" using ctx_fix_cents [OF x] by simp
  then show ?thesis using assms(2) by simp
qed

lemma decimal_field_bound:
  assumes "decimal_field 12 2 x = Inr b"
  shows "\<bar>x\<bar> < 10 ^ 10 + 1"
proof -
  have "\<bar>round_half_even (x * 100)\<bar> < 10 ^ 12"
    using assms by (simp add: decimal_field_def quantize_def round_int_def split: if_splits)
  then have "\<bar>of_int (round_half_even (x * 100)) :: rat\<bar> < 10 ^ 12"
    by (metis of_int_abs of_int_less_iff of_int_numeral of_int_power)
  then show ?thesis using round_half_even_near [of "x * 100"] by (simp add: abs_less_iff)
qed

lemma decimal_field_cents_eq:
  assumes "is_cents x" "decimal_field 12 2 x = Inr b"
  shows "b = x \<and> \<bar>x\<bar> < 10 ^ 10"
proof -
  obtain n where x: "x = of_int n / 100" using assms(1) is_cents_iff by blast
  have "\<bar>n\<bar> < 10 ^ 12 \<and> b = x"
    using assms(2) by (simp add: decimal_field_def quantize_def round_int_def x split: if_splits)
  then have "\<bar>of_int n :: rat\<bar> < 10 ^ 12 \<and> b = x"
    by (metis of_int_abs of_int_less_iff of_int_numeral of_int_power)
  then show ?thesis by (simp add: x)
qed

lemma is_cents_add: "is_cents x \<Longrightarrow> is_cents y \<Longrightarrow> is_cents (x + y)"
proof -
  assume "is_cents x" "is_cents y"
  then obtain n m where "x = of_int n / 100" "y = of_int m / 100" using is_cents_iff by blast
  then have "x + y = of_int (n + m) / 100" by simp
  then show ?thesis by (rule is_centsI)
qed

lemma is_cents_diff: "is_cents x \<Longrightarrow> is_cents y \<Longrightarrow> is_cents (x - y)"
proof -
  assume "is_cents x" "is_cents y"
  then obtain n m where "x = of_int n / 100" "y = of_int m / 100" using is_cents_iff by blast
  then have "x - y = of_int (n - m) / 100" by (simp add: diff_divide_distrib)
  then show ?thesis by (rule is_centsI)
qed

lemma is_cents_minus: "is_cents x \<Longrightarrow> is_cents (- x)"
  using is_cents_diff [of 0 x] is_centsI [of 0 0] by simp

lemma is_cents_0 [simp]: "is_cents 0"
  using is_centsI [of 0 0] by simp

lemma ctx_fix_cents': "is_cents x \<Longrightarrow> \<bar>x\<bar> < 10 ^ 26 \<Longrightarrow> ctx_fix x = Inr x"
  using ctx_fix_cents is_cents_iff by blast

lemma running_totals_append:
  "running_totals acc (ts @ [t]) \<longleftrightarrow>
     running_totals acc ts \<and> tx_balance_after t = acc + sum_list (map tx_amount ts) + tx_amount t"
  by (induction ts arbitrary: acc) (auto simp: algebra_simps)

section \<open>The ledger invariant\<close>

lemma create_txD:
  assumes "create_tx ok row st = Some st''"
  shows "\<exists>a b t. decimal_field 12 2 (tx_amount row) = Inr a
           \<and> decimal_field 12 2 (tx_balance_after row) = Inr b
           \<and> profile_row st'' = profile_row st
           \<and> wallet_txs st'' = wallet_txs st @ [t]
           \<and> tx_amount t = a \<and> tx_balance_after t = b"
  using assms
  by (auto simp: create_tx_def split: if_splits sum.splits option.splits)

lemma ledger_append:
  assumes "wallet_inv st"
    and "profile_row st'' = (profile_row st)\<lparr>balance := nb\<rparr>"
    and "wallet_txs st'' = wallet_txs st @ [t]"
    and "tx_amount t = nb - balance (profile_row st)"
    and "tx_balance_after t = nb"
    and "is_cents nb" "\<bar>nb\<bar> < 10 ^ 10"
  shows "wallet_inv st''"
  using assms by (simp add: wallet_inv_def ledger_ok_def running_totals_append)

lemma try_convert_is_cents:
  "is_cents a \<Longrightarrow> is_cents (fst (try_convert w r a f t))"
  by (auto simp: try_convert_def convert_amount_is_cents split: sum.splits)

lemma add_balance_pref:
  assumes res: "fst (add_balance w r prof st (Num c) (Some (preferred_currency prof)) True)
                  = Inr (prof', st')"
    and cb: "is_cents (balance prof)" and cc: "is_cents c"
  shows "(c \<le> 0 \<and> prof' = prof \<and> st' = st)
       \<or> (0 < c \<and> prof' = prof\<lparr>balance := balance prof + c\<rparr>
            \<and> st' = st\<lparr>profile_row := (profile_row st)\<lparr>balance := balance prof + c\<rparr>\<rparr>
            \<and> \<bar>balance prof + c\<bar> < 10 ^ 10)"
proof (cases "c \<le> 0")
  case True
  then show ?thesis using res by (simp add: add_balance_def)
next
  case False
  have tp: "fst (to_preferred w r prof c (or_preferred (Some (preferred_currency prof)) prof)) = c"
    by (simp add: to_preferred_def or_preferred_def)
  obtain nb where nb: "ctx_fix (balance prof + c) = Inr nb"
    using res False by (auto simp: add_balance_def tp dec_add_def split: sum.splits)
  obtain b where b: "decimal_field 12 2 nb = Inr b"
    using res False nb
    by (auto simp: add_balance_def tp dec_add_def save_balance_def split: sum.splits)
  have "\<bar>nb\<bar> < 10 ^ 26" using decimal_field_bound [OF b] by simp
  then have nbv: "nb = balance prof + c"
    using ctx_fix_cents_small [OF is_cents_add [OF cb cc] nb] by simp
  have bb: "b = nb \<and> \<bar>nb\<bar> < 10 ^ 10"
    using decimal_field_cents_eq [OF _ b] is_cents_add [OF cb cc] nbv by simp
  show ?thesis
    using res False nb b bb nbv
    by (simp add: add_balance_def tp dec_add_def save_balance_def)
qed

lemma topup_credit_inv:
  assumes inv: "wallet_inv st" and ca: "is_cents amt"
    and res: "fst (topup_credit w r st amt chosen log_ok) = (out, st1)"
    and nl: "out \<noteq> LogLost"
  shows "wallet_inv st1"
proof -
  define prof where "prof = profile_row st"
  define B where "B = balance prof"
  define c where "c = fst (topup_credited w r amt chosen (preferred_currency prof))"
  define r2 where "r2 = snd (topup_credited w r amt chosen (preferred_currency prof))"
  have cB: "is_cents B" and bB: "\<bar>B\<bar> < 10 ^ 10"
    using inv by (simp_all add: wallet_inv_def B_def prof_def)
  have cc: "is_cents c"
    using ca by (simp add: c_def topup_credited_def try_convert_is_cents)
  show ?thesis
  proof (cases "fst (add_balance w r2 prof st (Num c) (Some (preferred_currency prof)) True)")
    case (Inl e)
    then have "st1 = st" using res by (simp add: topup_credit_def prof_def c_def r2_def)
    then show ?thesis using inv by simp
  next
    case (Inr p)
    obtain prof' st' where p: "p = (prof', st')" by (cases p)
    have ab: "fst (add_balance w r2 prof st (Num c) (Some (preferred_currency prof)) True)
                = Inr (prof', st')" using Inr p by simp
    have tl: "topup_log log_ok prof prof' st' amt chosen = (out, st1)"
      using res ab by (simp add: topup_credit_def prof_def c_def r2_def)
    define nb where "nb = balance prof'"
    have facts: "is_cents nb \<and> \<bar>nb\<bar> < 10 ^ 10
        \<and> profile_row st' = (profile_row st)\<lparr>balance := nb\<rparr> \<and> wallet_txs st' = wallet_txs st"
      using add_balance_pref [OF ab] cB cc bB
      by (auto simp: B_def nb_def prof_def is_cents_add)
    have d: "dec_sub nb B = Inr (nb - B)"
    proof -
      have "\<bar>nb - B\<bar> < 10 ^ 26" using facts bB by (simp add: abs_less_iff)
      then show ?thesis
        using ctx_fix_cents' [of "nb - B"] is_cents_diff [of nb B] facts cB by (simp add: dec_sub_def)
    qed
    obtain st'' where cr: "create_tx log_ok
          (topup_row (nb - B) nb amt chosen (preferred_currency prof)) st' = Some st''"
      and out: "st1 = st''"
      using tl nl d by (auto simp: topup_log_def nb_def B_def split: option.splits)
    obtain a b t where row: "decimal_field 12 2 (nb - B) = Inr a" "decimal_field 12 2 nb = Inr b"
        "profile_row st'' = profile_row st'"
        "wallet_txs st'' = wallet_txs st' @ [t]" "tx_amount t = a" "tx_balance_after t = b"
      using create_txD [OF cr] by (auto simp: topup_row_def)
    have a: "a = nb - B"
      using decimal_field_cents_eq [OF _ row(1)] is_cents_diff [of nb B] facts cB by simp
    have b: "b = nb"
      using decimal_field_cents_eq [OF _ row(2)] facts by simp
    show ?thesis
      unfolding out
      by (rule ledger_append [OF inv, where nb = nb and t = t])
         (use facts row a b in \<open>simp_all add: B_def prof_def\<close>)
  qed
qed

lemma topup_post_inv:
  assumes inv: "wallet_inv st"
    and ca: "case amt_raw of Num a \<Rightarrow> is_cents a | _ \<Rightarrow> True"
    and res: "fst (topup_post w r st amt_raw currency_raw log_ok) = (out, st1)"
    and nl: "out \<noteq> LogLost"
  shows "wallet_inv st1"
proof (cases amt_raw)
  case Unparsable
  then show ?thesis using res inv by (simp add: topup_post_def)
next
  case NaN
  then show ?thesis using res inv by (simp add: topup_post_def)
next
  case (Num amt)
  show ?thesis
  proof (cases "amt \<le> 0 \<or> amt < fst (min_topup w r (chosen_currency currency_raw st))")
    case True
    then have "st1 = st" using res Num by (auto simp: topup_post_def split: if_splits)
    then show ?thesis using inv by simp
  next
    case False
    then have "fst (topup_credit w (snd (min_topup w r (chosen_currency currency_raw st))) st amt
                 (chosen_currency currency_raw st) log_ok) = (out, st1)"
      using res Num by (simp add: topup_post_def)
    then show ?thesis using topup_credit_inv [OF inv _ _ nl] ca Num by simp
  qed
qed

lemma wallet_inv_total_spent:
  "wallet_inv st \<Longrightarrow> wallet_inv (st\<lparr>profile_row := (profile_row st)\<lparr>total_spent := t\<rparr>\<rparr>)"
  by (auto simp: wallet_inv_def ledger_ok_def)

lemma add_spending_inv:
  "add_spending prof1 st1 amt = Inr (prof2, st2) \<Longrightarrow> wallet_inv st1 \<Longrightarrow> wallet_inv st2"
  by (auto simp: add_spending_def save_total_spent_def wallet_inv_total_spent
           split: sum.splits)

lemma payment_commit_inv:
  assumes inv: "wallet_inv st"
    and a: "\<And>prof1 st1. a = Proceed False prof1 st1 \<Longrightarrow> wallet_inv st1"
    and sw: "\<And>st1. a = Swallow st1 \<Longrightarrow> st1 = st"
    and res: "payment_commit a ord st = (out, ord', st')"
    and nl: "out \<noteq> LogLost"
  shows "wallet_inv st'"
proof (cases a)
  case (Proceed lost prof1 st1)
  show ?thesis
  proof (cases "add_spending prof1 st1 (total_price ord)")
    case (Inl e)
    then show ?thesis
      using res nl Proceed inv a by (auto simp: payment_commit_def split: if_splits)
  next
    case (Inr p)
    then show ?thesis
      using res nl Proceed inv a add_spending_inv [of prof1 st1 "total_price ord" "fst p" "snd p"]
      by (auto simp: payment_commit_def split: if_splits prod.splits)
  qed
next
  case (Swallow st1)
  then show ?thesis using res inv sw by (auto simp: payment_commit_def)
next
  case Abort
  then show ?thesis using res inv by (auto simp: payment_commit_def)
qed

lemma deduct_balance_pref:
  assumes res: "fst (deduct_balance w r prof st (Num c) (Some (preferred_currency prof)) False True)
                  = Inr (ok, prof', st')"
    and cb: "is_cents (balance prof)" and bb: "\<bar>balance prof\<bar> < 10 ^ 10"
    and cc: "is_cents c" and le: "c \<le> balance prof"
  shows "(\<not> ok \<and> prof' = prof \<and> st' = st)
       \<or> (ok \<and> 0 < c \<and> prof' = prof\<lparr>balance := balance prof - c\<rparr>
            \<and> st' = st\<lparr>profile_row := (profile_row st)\<lparr>balance := balance prof - c\<rparr>\<rparr>)"
proof (cases "c \<le> 0")
  case True
  then show ?thesis using res by (simp add: deduct_balance_def)
next
  case False
  have tp: "fst (to_preferred w r prof c (or_preferred (Some (preferred_currency prof)) prof)) = c"
    by (simp add: to_preferred_def or_preferred_def)
  have small: "\<bar>balance prof - c\<bar> < 10 ^ 10" using False le bb by (simp add: abs_less_iff)
  have cd: "is_cents (balance prof - c)" using cb cc by (rule is_cents_diff)
  have nb: "ctx_fix (balance prof - c) = Inr (balance prof - c)"
    using ctx_fix_cents' [OF cd] small by simp
  obtain b where b: "decimal_field 12 2 (balance prof - c) = Inr b"
    using res False nb le
    by (auto simp: deduct_balance_def tp dec_sub_def save_balance_def split: sum.splits if_splits)
  have bv: "b = balance prof - c" using decimal_field_cents_eq [OF cd b] by simp
  show ?thesis
    using res False nb b bv le
    by (auto simp: deduct_balance_def tp dec_sub_def save_balance_def split: if_splits)
qed

lemma purchase_log_inv:
  assumes inv: "wallet_inv st" and cc: "is_cents c" and pos: "0 < c"
    and le: "c \<le> balance (profile_row st)"
    and res: "purchase_log log_ok (profile_row st)
                ((profile_row st)\<lparr>balance := balance (profile_row st) - c\<rparr>)
                (st\<lparr>profile_row := (profile_row st)\<lparr>balance := balance (profile_row st) - c\<rparr>\<rparr>) ord
              = Proceed False pf sf"
  shows "wallet_inv sf"
proof -
  define B where "B = balance (profile_row st)"
  have cB: "is_cents B" and bB: "\<bar>B\<bar> < 10 ^ 10"
    using inv by (simp_all add: wallet_inv_def B_def)
  have csmall: "\<bar>c\<bar> < 10 ^ 26" using pos le bB by (simp add: B_def abs_less_iff)
  have d: "dec_sub B (B - c) = Inr c"
    using ctx_fix_cents' [OF cc] csmall by (simp add: dec_sub_def)
  have m: "dec_mul c (- 1) = Inr (- c)"
    using ctx_fix_cents' [OF is_cents_minus [OF cc]] csmall by (simp add: dec_mul_def)
  obtain st'' where cr: "create_tx log_ok
        (purchase_row (- c) ((profile_row st)\<lparr>balance := B - c\<rparr>) ord)
        (st\<lparr>profile_row := (profile_row st)\<lparr>balance := B - c\<rparr>\<rparr>) = Some st''"
    and out: "sf = st''"
    using res d m by (auto simp: purchase_log_def B_def split: option.splits)
  obtain a b t where row: "decimal_field 12 2 (- c) = Inr a" "decimal_field 12 2 (B - c) = Inr b"
      "profile_row st'' = (profile_row st)\<lparr>balance := B - c\<rparr>"
      "wallet_txs st'' = wallet_txs st @ [t]" "tx_amount t = a" "tx_balance_after t = b"
    using create_txD [OF cr] by (auto simp: purchase_row_def)
  have cd: "is_cents (B - c)" using cB cc by (rule is_cents_diff)
  have a: "a = - c"
    using decimal_field_cents_eq [OF is_cents_minus [OF cc] row(1)] by simp
  have b: "b = B - c"
    using decimal_field_cents_eq [OF cd row(2)] by simp
  have small: "\<bar>B - c\<bar> < 10 ^ 10" using pos le bB by (simp add: B_def abs_less_iff)
  show ?thesis
    unfolding out
    by (rule ledger_append [OF inv, where nb = "B - c" and t = t])
       (use row a b cd small in \<open>simp_all add: B_def\<close>)
qed

lemma to_charge_is_cents:
  "is_cents (total_price ord) \<Longrightarrow> is_cents (fst (to_charge w r prof ord))"
  by (simp add: to_charge_def try_convert_is_cents)

lemma wallet_charge_inv:
  assumes inv: "wallet_inv st" and co: "is_cents (total_price ord)"
    and res: "fst (wallet_charge w r st ord use_wallet log_ok) = Proceed False prof1 st1"
  shows "wallet_inv st1"
proof -
  define prof where "prof = profile_row st"
  define c where "c = fst (to_charge w r prof ord)"
  define r2 where "r2 = snd (to_charge w r prof ord)"
  have cc: "is_cents c" using co by (simp add: c_def to_charge_is_cents)
  have cB: "is_cents (balance prof)" and bB: "\<bar>balance prof\<bar> < 10 ^ 10"
    using inv by (simp_all add: wallet_inv_def prof_def)
  show ?thesis
  proof (cases "use_wallet \<and> 0 < balance prof \<and> c \<le> balance prof")
    case False
    then have "st1 = st"
      using res by (auto simp: wallet_charge_def prof_def c_def split: if_splits)
    then show ?thesis using inv by simp
  next
    case True
    show ?thesis
    proof (cases "fst (deduct_balance w r2 prof st (Num c) (Some (preferred_currency prof)) False True)")
      case (Inl e)
      then show ?thesis
        using res True by (auto simp: wallet_charge_def prof_def c_def r2_def split: if_splits)
    next
      case (Inr p)
      obtain ok prof' st' where p: "p = (ok, prof', st')" by (cases p)
      have db: "fst (deduct_balance w r2 prof st (Num c) (Some (preferred_currency prof)) False True)
                  = Inr (ok, prof', st')" using Inr p by simp
      have step: "(if ok then purchase_log log_ok prof prof' st' ord else Proceed False prof' st')
                    = Proceed False prof1 st1"
        using res True db by (auto simp: wallet_charge_def prof_def c_def r2_def split: if_splits)
      from deduct_balance_pref [OF db cB bB cc] True
      consider "\<not> ok" "prof' = prof" "st' = st"
        | "ok" "0 < c" "prof' = prof\<lparr>balance := balance prof - c\<rparr>"
            "st' = st\<lparr>profile_row := (profile_row st)\<lparr>balance := balance prof - c\<rparr>\<rparr>"
        by auto
      then show ?thesis
      proof cases
        case 1
        then show ?thesis using step inv by simp
      next
        case 2
        show ?thesis
          by (rule purchase_log_inv [OF inv cc, where log_ok = log_ok and ord = ord and pf = prof1])
             (use 2 True step in \<open>simp_all add: prof_def\<close>)
      qed
    qed
  qed
qed

lemma wallet_charge_swallow:
  "fst (wallet_charge w r st ord use_wallet log_ok) = Swallow st1 \<Longrightarrow> st1 = st"
  by (auto simp: wallet_charge_def purchase_log_def
           split: if_splits sum.splits prod.splits option.splits)

lemma payment_post_inv:
  assumes inv: "wallet_inv st" and co: "is_cents (total_price ord)"
    and res: "fst (payment_post w r st ord use_wallet log_ok) = (out, ord', st')"
    and nl: "out \<noteq> LogLost"
  shows "wallet_inv st'"
proof (cases "status ord = ''paid''")
  case True
  then show ?thesis using res inv by (simp add: payment_post_def)
next
  case False
  then have pc: "payment_commit (fst (wallet_charge w r st ord use_wallet log_ok)) ord st
                   = (out, ord', st')"
    using res by (simp add: payment_post_def)
  show ?thesis
    by (rule payment_commit_inv [OF inv _ _ pc nl])
       (auto dest: wallet_charge_inv [OF inv co] wallet_charge_swallow)
qed

lemma serve_inv:
  assumes "wallet_inv st" and "cents_request q" and "serve w q (st, r) = (out, st', r')"
    and "out \<noteq> LogLost"
  shows "wallet_inv st'"
proof (cases q)
  case (Topup amt_raw currency_raw log_ok)
  then show ?thesis
    using assms topup_post_inv [of st amt_raw w r currency_raw log_ok out st']
    by (auto simp: cents_request_def prod_eq_iff)
next
  case (Pay ord use_wallet log_ok)
  then show ?thesis
    using assms payment_post_inv [of st ord w r use_wallet log_ok out
             "fst (snd (fst (payment_post w r st ord use_wallet log_ok)))" st']
    by (auto simp: cents_request_def prod_eq_iff)
qed

lemma serve_all_inv:
  "wallet_inv st \<Longrightarrow> list_all cents_request (map snd qs)
     \<Longrightarrow> serve_all qs (st, r) = (outs, st', r') \<Longrightarrow> LogLost \<notin> set outs
     \<Longrightarrow> wallet_inv st'"
proof (induction qs arbitrary: st r outs st' r')
  case Nil
  then show ?case by simp
next
  case (Cons wq qs)
  obtain w q where wq: "wq = (w, q)" by (cases wq)
  obtain out st1 r1 where s: "serve w q (st, r) = (out, st1, r1)" by (cases "serve w q (st, r)")
  obtain outs1 st2 r2 where sa: "serve_all qs (st1, r1) = (outs1, st2, r2)"
    by (cases "serve_all qs (st1, r1)")
  have eq: "outs = out # outs1" "st' = st2" using Cons.prems(3) wq s sa by simp_all
  have "wallet_inv st1"
    using serve_inv [OF Cons.prems(1) _ s] Cons.prems(2,4) wq eq by auto
  then show ?case
    using Cons.IH [OF _ _ sa] Cons.prems(2,4) eq by auto
qed

lemma wallet_inv_fresh: "wallet_inv (fresh_store ccy)"
  by (simp add: wallet_inv_def ledger_ok_def fresh_store_def)

section \<open>Evaluating requests\<close>

lemma min_topup_usd: "min_topup w r ''USD'' = (1, r)"
  by (simp add: min_topup_def convert_amount_def quantize_cents_eq round_half_up_def
      round_half_up_2_def)

lemma topup_usd_eval:
  assumes "preferred_currency (profile_row st) = ''USD''" and "1 \<le> amt"
    and "ctx_fix (balance (profile_row st) + amt) = Inr nb"
    and "decimal_field 12 2 nb = Inr b"
    and "ctx_fix (nb - balance (profile_row st)) = Inr d"
    and "decimal_field 12 2 d = Inr a"
  shows "topup_post w r st (Num amt) ''USD'' log_ok =
           ((if log_ok then Done else LogLost,
             if log_ok
             then st\<lparr>profile_row := (profile_row st)\<lparr>balance := b\<rparr>,
                     wallet_txs := wallet_txs st @ [topup_tx a b]\<rparr>
             else st\<lparr>profile_row := (profile_row st)\<lparr>balance := b\<rparr>\<rparr>), r)"
  using assms
  by (simp add: topup_post_def min_topup_usd chosen_currency_def topup_credit_def
      topup_credited_def add_balance_def to_preferred_def or_preferred_def dec_add_def
      save_balance_def topup_log_def dec_sub_def create_tx_def topup_row_def topup_tx_def)

lemma decimal_field_eval:
  "decimal_field 12 2 2 = Inr 2" "decimal_field 12 2 1 = Inr 1"
  "decimal_field 12 2 (- 1) = Inr (- 1)" "decimal_field 10 2 1 = Inr 1"
  "decimal_field 12 2 (101/100) = Inr (101/100)"
  "decimal_field 12 2 (403/200) = Inr (101/50)"
  "decimal_field 12 2 (201/200) = Inr 1"
  "decimal_field 12 2 15 = Inr 15" "decimal_field 12 2 5 = Inr 5"
  by (simp_all add: decimal_field_def quantize_def round_int_def round_half_even_def Let_def)

lemma ctx_fix_eval:
  "ctx_fix 2 = Inr 2" "ctx_fix 1 = Inr 1" "ctx_fix (- 1) = Inr (- 1)"
  "ctx_fix (101/100) = Inr (101/100)" "ctx_fix (403/200) = Inr (403/200)"
  "ctx_fix (201/200) = Inr (201/200)" "ctx_fix 15 = Inr 15" "ctx_fix 5 = Inr 5"
  using ctx_fix_exact [of 2 2 0] ctx_fix_exact [of 1 1 0] ctx_fix_exact [of "- 1" "- 1" 0]
    ctx_fix_exact [of "101/100" 101 2] ctx_fix_exact [of "403/200" 2015 3]
    ctx_fix_exact [of "201/200" 1005 3] ctx_fix_exact [of 15 15 0] ctx_fix_exact [of 5 5 0]
  by simp_all

lemma payment_usd_eval:
  assumes "preferred_currency (profile_row st) = ''USD''" and "currency ord = ''USD''"
    and "status ord \<noteq> ''paid''"
    and "0 < total_price ord" and "total_price ord \<le> balance (profile_row st)"
    and "ctx_fix (balance (profile_row st) - total_price ord) = Inr nb" and "0 \<le> nb"
    and "decimal_field 12 2 nb = Inr b"
    and "ctx_fix (balance (profile_row st) - nb) = Inr d"
    and "ctx_fix (- d) = Inr m"
    and "decimal_field 12 2 m = Inr a"
    and "decimal_field 12 2 (total_price ord) = Inr sa"
  shows "wallet_charge w r st ord True log_ok =
           (if log_ok
            then Proceed False ((profile_row st)\<lparr>balance := nb\<rparr>)
                   (st\<lparr>profile_row := (profile_row st)\<lparr>balance := b\<rparr>,
                       wallet_txs := wallet_txs st @ [purchase_tx a sa b]\<rparr>)
            else Abort, r)"
  using assms
  by (simp add: wallet_charge_def to_charge_def deduct_balance_def to_preferred_def
      or_preferred_def dec_sub_def save_balance_def purchase_log_def dec_mul_def create_tx_def
      purchase_row_def purchase_tx_def)

lemma topup_2:
  "topup_post offline_world fresh_resolver (fresh_store ''USD'') (Num 2) ''USD'' True =
     ((Done, \<lparr>profile_row = \<lparr>balance = 2, preferred_currency = ''USD'', total_spent = 0\<rparr>,
              wallet_txs = [topup_tx 2 2]\<rparr>), fresh_resolver)"
  using topup_usd_eval [of "fresh_store ''USD''" 2 2 2 2 2 offline_world fresh_resolver True]
  by (simp add: fresh_store_def ctx_fix_eval decimal_field_eval)

lemma pay_1:
  "payment_post offline_world fresh_resolver
     \<lparr>profile_row = \<lparr>balance = 2, preferred_currency = ''USD'', total_spent = 0\<rparr>,
      wallet_txs = [topup_tx 2 2]\<rparr> usd_order True True =
     ((Done, usd_order\<lparr>status := ''paid''\<rparr>,
       \<lparr>profile_row = \<lparr>balance = 1, preferred_currency = ''USD'', total_spent = 1\<rparr>,
        wallet_txs = [topup_tx 2 2, purchase_tx (- 1) 1 1]\<rparr>), fresh_resolver)"
  using payment_usd_eval [of "\<lparr>profile_row = \<lparr>balance = 2, preferred_currency = ''USD'', total_spent = 0\<rparr>,
      wallet_txs = [topup_tx 2 2]\<rparr>" usd_order 1 1 1 "- 1" "- 1" 1 offline_world fresh_resolver True]
  by (simp add: payment_post_def payment_commit_def add_spending_def dec_add_def
      save_total_spent_def usd_order_def ctx_fix_eval decimal_field_eval)

lemma serve_topup_then_pay:
  "serve_all topup_then_pay (fresh_store ''USD'', fresh_resolver) =
     ([Done, Done],
      \<lparr>profile_row = \<lparr>balance = 1, preferred_currency = ''USD'', total_spent = 1\<rparr>,
       wallet_txs = [topup_tx 2 2, purchase_tx (- 1) 1 1]\<rparr>, fresh_resolver)"
  by (simp add: topup_then_pay_def topup_2 pay_1)

lemma topup_101:
  "topup_post offline_world fresh_resolver (fresh_store ''USD'') (Num (101/100)) ''USD'' True =
     ((Done, \<lparr>profile_row = \<lparr>balance = 101/100, preferred_currency = ''USD'', total_spent = 0\<rparr>,
              wallet_txs = [topup_tx (101/100) (101/100)]\<rparr>), fresh_resolver)"
  using topup_usd_eval [of "fresh_store ''USD''" "101/100" "101/100" "101/100" "101/100" "101/100"
          offline_world fresh_resolver True]
  by (simp add: fresh_store_def ctx_fix_eval decimal_field_eval)

lemma topup_1005:
  "topup_post offline_world fresh_resolver
     \<lparr>profile_row = \<lparr>balance = 101/100, preferred_currency = ''USD'', total_spent = 0\<rparr>,
      wallet_txs = [topup_tx (101/100) (101/100)]\<rparr> (Num (201/200)) ''USD'' True =
     ((Done, \<lparr>profile_row = \<lparr>balance = 101/50, preferred_currency = ''USD'', total_spent = 0\<rparr>,
              wallet_txs = [topup_tx (101/100) (101/100), topup_tx 1 (101/50)]\<rparr>), fresh_resolver)"
  using topup_usd_eval [of "\<lparr>profile_row = \<lparr>balance = 101/100, preferred_currency = ''USD'', total_spent = 0\<rparr>,
      wallet_txs = [topup_tx (101/100) (101/100)]\<rparr>" "201/200" "403/200" "101/50" "201/200" 1
          offline_world fresh_resolver True]
  by (simp add: ctx_fix_eval decimal_field_eval)

lemma serve_tie_topups:
  "serve_all tie_topups (fresh_store ''USD'', fresh_resolver) =
     ([Done, Done],
      \<lparr>profile_row = \<lparr>balance = 101/50, preferred_currency = ''USD'', total_spent = 0\<rparr>,
       wallet_txs = [topup_tx (101/100) (101/100), topup_tx 1 (101/50)]\<rparr>, fresh_resolver)"
  by (simp add: tie_topups_def topup_101 topup_1005)

section \<open>Properties of the ledger\<close>

text \<open>
  C1 (as amended).  Take any sequence of top-ups and wallet payments served one after the
  other for a fresh user (balance 0, empty log).  If every top-up amount and every order
  total has at most two fractional digits and no request ends with its log row lost, then
  the stored balance is the sum of the \<open>amount\<close>s of the rows and each row's
  \<open>balance_after\<close> is the running sum up to and including that row.
\<close>

theorem ledger_sum_invariant:
  assumes "list_all cents_request (map snd qs)"
    and "serve_all qs (fresh_store ccy, r) = (outs, st, r')"
    and "LogLost \<notin> set outs"
  shows "ledger_ok st"
  using serve_all_inv [OF wallet_inv_fresh assms] by (simp add: wallet_inv_def)

theorem ledger_sum_invariant_witness:
  "list_all cents_request (map snd topup_then_pay)
   \<and> serve_all topup_then_pay (fresh_store ''USD'', fresh_resolver) =
       ([Done, Done],
        \<lparr>profile_row = \<lparr>balance = 1, preferred_currency = ''USD'', total_spent = 1\<rparr>,
         wallet_txs = [topup_tx 2 2, purchase_tx (- 1) 1 1]\<rparr>, fresh_resolver)
   \<and> LogLost \<notin> set [Done, Done]
   \<and> ledger_ok \<lparr>profile_row = \<lparr>balance = 1, preferred_currency = ''USD'', total_spent = 1\<rparr>,
                 wallet_txs = [topup_tx 2 2, purchase_tx (- 1) 1 1]\<rparr>"
proof -
  have h1: "list_all cents_request (map snd topup_then_pay)"
    by (simp add: topup_then_pay_def cents_request_def is_cents_def usd_order_def)
  have h3: "LogLost \<notin> set [Done, Done]" by simp
  show ?thesis
    using h1 h3 serve_topup_then_pay ledger_sum_invariant [OF h1 serve_topup_then_pay h3]
    by simp
qed

text \<open>
  C1 as stated fails for an amount with three fractional digits.  Top-ups of 1.01 and
  1.005 USD both succeed and both write their row; the balance column stores
  \<open>2.015\<close> as 2.02 (half-even), the second row stores its amount \<open>1.005\<close> as 1.00,
  and 1.01 + 1.00 is not 2.02.
\<close>

theorem ledger_sum_counterexample:
  "serve_all tie_topups (fresh_store ''USD'', fresh_resolver) =
     ([Done, Done],
      \<lparr>profile_row = \<lparr>balance = 202/100, preferred_currency = ''USD'', total_spent = 0\<rparr>,
       wallet_txs = [topup_tx (101/100) (101/100), topup_tx (100/100) (202/100)]\<rparr>,
      fresh_resolver)
   \<and> \<not> ledger_ok (fst (snd (serve_all tie_topups (fresh_store ''USD'', fresh_resolver))))"
  by (simp add: serve_tie_topups ledger_ok_def topup_tx_def)

section \<open>A failed log write\<close>

text \<open>
  With a balance that is a value of its column and amounts of two fractional digits, the
  arithmetic of the log row cannot fail, so the only thing that can go wrong with the row
  is its INSERT.
\<close>

lemma create_tx_grows: "create_tx ok row st = Some st'' \<Longrightarrow> wallet_txs st'' \<noteq> wallet_txs st"
  using create_txD [of ok row st st''] by auto

lemma create_tx_failed: "create_tx False row st = None"
  by (simp add: create_tx_def)

lemma purchase_log_cases:
  assumes cB: "is_cents B" and bB: "\<bar>B\<bar> < 10 ^ 10" and cc: "is_cents c"
    and pos: "0 < c" and le: "c \<le> B" and b: "balance prof = B"
  shows "purchase_log log_ok prof (prof\<lparr>balance := B - c\<rparr>) sa ord = Abort
       \<or> (log_ok \<and> (\<exists>sf. purchase_log log_ok prof (prof\<lparr>balance := B - c\<rparr>) sa ord
                              = Proceed False (prof\<lparr>balance := B - c\<rparr>) sf
                          \<and> wallet_txs sf \<noteq> wallet_txs sa))"
proof -
  have csmall: "\<bar>c\<bar> < 10 ^ 26" using pos le bB by (simp add: abs_less_iff)
  have d: "dec_sub B (B - c) = Inr c"
    using ctx_fix_cents' [OF cc] csmall by (simp add: dec_sub_def)
  have m: "dec_mul c (- 1) = Inr (- c)"
    using ctx_fix_cents' [OF is_cents_minus [OF cc]] csmall by (simp add: dec_mul_def)
  show ?thesis
  proof (cases "create_tx log_ok (purchase_row (- c) (prof\<lparr>balance := B - c\<rparr>) ord) sa")
    case None
    then show ?thesis using d m b by (simp add: purchase_log_def)
  next
    case (Some sf)
    then have "log_ok" using create_tx_failed [of "purchase_row (- c) (prof\<lparr>balance := B - c\<rparr>) ord" sa]
      by (cases log_ok) simp_all
    then show ?thesis using Some d m b create_tx_grows [OF Some] by (simp add: purchase_log_def)
  qed
qed

lemma wallet_charge_cases:
  assumes cB: "is_cents (balance (profile_row st))" and bB: "\<bar>balance (profile_row st)\<bar> < 10 ^ 10"
    and co: "is_cents (total_price ord)"
  shows "fst (wallet_charge w r st ord use_wallet log_ok)
           \<in> {Abort, Swallow st, Proceed False (profile_row st) st}
       \<or> (log_ok \<and> (\<exists>pf sf. fst (wallet_charge w r st ord use_wallet log_ok) = Proceed False pf sf
                          \<and> wallet_txs sf \<noteq> wallet_txs st))"
proof -
  define prof where "prof = profile_row st"
  define c where "c = fst (to_charge w r prof ord)"
  define r2 where "r2 = snd (to_charge w r prof ord)"
  have cc: "is_cents c" using co by (simp add: c_def to_charge_is_cents)
  show ?thesis
  proof (cases "use_wallet \<and> 0 < balance prof \<and> c \<le> balance prof")
    case False
    then show ?thesis
      by (auto simp: wallet_charge_def prof_def c_def split: if_splits)
  next
    case True
    show ?thesis
    proof (cases "fst (deduct_balance w r2 prof st (Num c) (Some (preferred_currency prof)) False True)")
      case (Inl e)
      then show ?thesis
        using True by (auto simp: wallet_charge_def prof_def c_def r2_def split: if_splits)
    next
      case (Inr p)
      obtain ok prof' sa where p: "p = (ok, prof', sa)" by (cases p)
      have db: "fst (deduct_balance w r2 prof st (Num c) (Some (preferred_currency prof)) False True)
                  = Inr (ok, prof', sa)" using Inr p by simp
      have step: "fst (wallet_charge w r st ord use_wallet log_ok) =
                    (if ok then purchase_log log_ok prof prof' sa ord else Proceed False prof' sa)"
        using True db by (auto simp: wallet_charge_def prof_def c_def r2_def split: if_splits)
      from deduct_balance_pref [OF db] cB bB cc True
      consider "\<not> ok" "prof' = prof" "sa = st"
        | "ok" "0 < c" "prof' = prof\<lparr>balance := balance prof - c\<rparr>" "wallet_txs sa = wallet_txs st"
        by (auto simp: prof_def)
      then show ?thesis
      proof cases
        case 1
        then show ?thesis using step by (simp add: prof_def)
      next
        case 2
        have "purchase_log log_ok prof (prof\<lparr>balance := balance prof - c\<rparr>) sa ord = Abort
            \<or> (log_ok \<and> (\<exists>sf. purchase_log log_ok prof (prof\<lparr>balance := balance prof - c\<rparr>) sa ord
                              = Proceed False (prof\<lparr>balance := balance prof - c\<rparr>) sf
                          \<and> wallet_txs sf \<noteq> wallet_txs sa))"
          by (rule purchase_log_cases [OF _ _ cc]) (use cB bB True 2 in \<open>simp_all add: prof_def\<close>)
        then show ?thesis using step 2 by auto
      qed
    qed
  qed
qed

lemma payment_log_atomic:
  assumes cB: "is_cents (balance (profile_row st))" and bB: "\<bar>balance (profile_row st)\<bar> < 10 ^ 10"
    and co: "is_cents (total_price ord)"
    and res: "fst (payment_post w r st ord use_wallet log_ok) = (out, ord', st')"
  shows "out \<noteq> LogLost
       \<and> (wallet_txs st' = wallet_txs st \<longrightarrow> balance (profile_row st') = balance (profile_row st))
       \<and> (\<not> log_ok \<longrightarrow> wallet_txs st' = wallet_txs st)"
proof (cases "status ord = ''paid''")
  case True
  then show ?thesis using res by (auto simp: payment_post_def)
next
  case False
  then have pc: "payment_commit (fst (wallet_charge w r st ord use_wallet log_ok)) ord st
                   = (out, ord', st')"
    using res by (simp add: payment_post_def)
  from wallet_charge_cases [OF cB bB co, of w r use_wallet log_ok]
  consider "fst (wallet_charge w r st ord use_wallet log_ok) = Abort"
    | "fst (wallet_charge w r st ord use_wallet log_ok) = Swallow st"
    | "fst (wallet_charge w r st ord use_wallet log_ok) = Proceed False (profile_row st) st"
    | pf sf where "log_ok" "fst (wallet_charge w r st ord use_wallet log_ok) = Proceed False pf sf"
        "wallet_txs sf \<noteq> wallet_txs st"
    by auto
  then show ?thesis
  proof cases
    case 1
    then show ?thesis using pc by (auto simp: payment_commit_def)
  next
    case 2
    then show ?thesis using pc by (auto simp: payment_commit_def)
  next
    case 3
    then show ?thesis
      using pc
      by (auto simp: payment_commit_def add_spending_def save_total_spent_def
               split: sum.splits if_splits)
  next
    case 4
    then show ?thesis
      using pc
      by (auto simp: payment_commit_def add_spending_def save_total_spent_def
               split: sum.splits if_splits)
  qed
qed

lemma topup_log_failure:
  assumes cB: "is_cents (balance (profile_row st))" and ca: "is_cents amt"
    and res: "fst (topup_post w r st (Num amt) currency_raw False) = (out, st')"
  shows "wallet_txs st' = wallet_txs st
       \<and> (out = LogLost \<longrightarrow>
            balance (profile_row st') = balance (profile_row st)
              + max 0 (fst (topup_credited w (snd (min_topup w r (chosen_currency currency_raw st)))
                              amt (chosen_currency currency_raw st)
                              (preferred_currency (profile_row st)))))"
proof (cases "amt \<le> 0 \<or> amt < fst (min_topup w r (chosen_currency currency_raw st))")
  case True
  then show ?thesis using res by (auto simp: topup_post_def split: if_splits)
next
  case False
  define chosen where "chosen = chosen_currency currency_raw st"
  define r1 where "r1 = snd (min_topup w r chosen)"
  define prof where "prof = profile_row st"
  define c where "c = fst (topup_credited w r1 amt chosen (preferred_currency prof))"
  define r2 where "r2 = snd (topup_credited w r1 amt chosen (preferred_currency prof))"
  have cc: "is_cents c"
    using ca by (simp add: c_def topup_credited_def try_convert_is_cents)
  have tc: "fst (topup_credit w r1 st amt chosen False) = (out, st')"
    using res False by (simp add: topup_post_def chosen_def r1_def)
  show ?thesis
  proof (cases "fst (add_balance w r2 prof st (Num c) (Some (preferred_currency prof)) True)")
    case (Inl e)
    then show ?thesis
      using tc by (auto simp: topup_credit_def prof_def c_def r2_def)
  next
    case (Inr p)
    obtain prof' st1 where p: "p = (prof', st1)" by (cases p)
    have ab: "fst (add_balance w r2 prof st (Num c) (Some (preferred_currency prof)) True)
                = Inr (prof', st1)" using Inr p by simp
    have tl: "topup_log False prof prof' st1 amt chosen = (out, st')"
      using tc ab by (simp add: topup_credit_def prof_def c_def r2_def)
    have st': "st' = st1"
      using tl by (auto simp: topup_log_def create_tx_def split: sum.splits)
    from add_balance_pref [OF ab] cB cc
    have "(c \<le> 0 \<and> st1 = st)
        \<or> (0 < c \<and> st1 = st\<lparr>profile_row := (profile_row st)\<lparr>balance := balance prof + c\<rparr>\<rparr>)"
      by (auto simp: prof_def)
    then show ?thesis
      using st' by (auto simp: c_def r1_def chosen_def prof_def max_def)
  qed
qed


lemma ctx_fix_eval_wallet:
  "ctx_fix 4 = Inr 4" "ctx_fix 7 = Inr 7"
  using ctx_fix_exact [of 4 4 0] ctx_fix_exact [of 7 7 0]
  by simp_all

lemma decimal_field_eval_wallet:
  "decimal_field 12 2 4 = Inr 4" "decimal_field 12 2 7 = Inr 7"
  by (simp_all add: decimal_field_def quantize_def round_int_def round_half_even_def Let_def)

lemma pay_log_fails:
  "payment_post offline_world fresh_resolver five_usd_store usd_order True False =
     ((RolledBack, usd_order, five_usd_store), fresh_resolver)"
  using payment_usd_eval [of five_usd_store usd_order 4 4 1 "- 1" "- 1" 1
          offline_world fresh_resolver False]
  by (simp add: payment_post_def payment_commit_def usd_order_def five_usd_store_def five_usd_def
      ctx_fix_eval ctx_fix_eval_wallet decimal_field_eval decimal_field_eval_wallet)

lemma topup_log_fails_5:
  "topup_post offline_world fresh_resolver five_usd_store (Num 2) ''USD'' False =
     ((LogLost, \<lparr>profile_row = \<lparr>balance = 7, preferred_currency = ''USD'', total_spent = 0\<rparr>,
                 wallet_txs = []\<rparr>), fresh_resolver)"
  using topup_usd_eval [of five_usd_store 2 7 7 2 2 offline_world fresh_resolver False]
  by (simp add: five_usd_store_def five_usd_def ctx_fix_eval ctx_fix_eval_wallet
      decimal_field_eval decimal_field_eval_wallet)

lemma topup_log_fails_10:
  "topup_post offline_world fresh_resolver ten_usd_store (Num 5) ''USD'' False =
     ((LogLost, \<lparr>profile_row = \<lparr>balance = 15, preferred_currency = ''USD'', total_spent = 0\<rparr>,
                 wallet_txs = []\<rparr>), fresh_resolver)"
  using topup_usd_eval [of ten_usd_store 5 15 15 5 5 offline_world fresh_resolver False]
  by (simp add: ten_usd_store_def ten_usd_def ctx_fix_eval decimal_field_eval)

text \<open>
  C3 (as amended).  For a stored balance that is a value of its column and amounts with
  two fractional digits: \<open>PaymentView.post\<close> never completes with a deduction that has no
  log row; whenever it leaves the log as it was, it leaves the balance as it was, and it
  leaves the log as it was when the INSERT of the row fails (the transaction is rolled
  back).  \<open>WalletTopupView.post\<close> offers no such guarantee: when the INSERT fails the log
  is unchanged, yet if the view got as far as the log write the credited amount stays in
  the balance.
\<close>

theorem log_write_atomicity:
  assumes "is_cents (balance (profile_row st))" and "\<bar>balance (profile_row st)\<bar> < 10 ^ 10"
    and "is_cents (total_price ord)" and "is_cents amt"
  shows "fst (fst (payment_post w r st ord use_wallet log_ok)) \<noteq> LogLost
       \<and> (wallet_txs (snd (snd (fst (payment_post w r st ord use_wallet log_ok)))) = wallet_txs st
            \<longrightarrow> balance (profile_row (snd (snd (fst (payment_post w r st ord use_wallet log_ok)))))
                  = balance (profile_row st))
       \<and> (\<not> log_ok
            \<longrightarrow> wallet_txs (snd (snd (fst (payment_post w r st ord use_wallet log_ok)))) = wallet_txs st)
       \<and> wallet_txs (snd (fst (topup_post w r st (Num amt) currency_raw False))) = wallet_txs st
       \<and> (fst (fst (topup_post w r st (Num amt) currency_raw False)) = LogLost
            \<longrightarrow> balance (profile_row (snd (fst (topup_post w r st (Num amt) currency_raw False))))
                  = balance (profile_row st)
                    + max 0 (fst (topup_credited w (snd (min_topup w r (chosen_currency currency_raw st)))
                                    amt (chosen_currency currency_raw st)
                                    (preferred_currency (profile_row st)))))"
proof -
  obtain out ord' sp where p: "fst (payment_post w r st ord use_wallet log_ok) = (out, ord', sp)"
    by (cases "fst (payment_post w r st ord use_wallet log_ok)")
  obtain out2 s2 where t: "fst (topup_post w r st (Num amt) currency_raw False) = (out2, s2)"
    by (cases "fst (topup_post w r st (Num amt) currency_raw False)")
  show ?thesis
    using payment_log_atomic [OF assms(1,2,3) p] topup_log_failure [OF assms(1,4) t] p t
    by (cases log_ok) simp_all
qed

theorem log_write_atomicity_witness:
  "is_cents (balance (profile_row five_usd_store)) \<and> \<bar>balance (profile_row five_usd_store)\<bar> < 10 ^ 10
   \<and> is_cents (total_price usd_order) \<and> is_cents 2
   \<and> fst (payment_post offline_world fresh_resolver five_usd_store usd_order True False)
       = (RolledBack, usd_order, five_usd_store)
   \<and> fst (topup_post offline_world fresh_resolver five_usd_store (Num 2) ''USD'' False)
       = (LogLost, \<lparr>profile_row = \<lparr>balance = 7, preferred_currency = ''USD'', total_spent = 0\<rparr>,
                    wallet_txs = []\<rparr>)
   \<and> topup_credited offline_world fresh_resolver 2 ''USD'' ''USD'' = (2, fresh_resolver)
   \<and> balance (profile_row five_usd_store) + max 0 2 = 7"
proof -
  have h1: "is_cents (balance (profile_row five_usd_store))"
    by (simp add: five_usd_store_def five_usd_def is_cents_def)
  have h2: "\<bar>balance (profile_row five_usd_store)\<bar> < 10 ^ 10"
    by (simp add: five_usd_store_def five_usd_def)
  have h3: "is_cents (total_price usd_order)" by (simp add: usd_order_def is_cents_def)
  have h4: "is_cents 2" by (simp add: is_cents_def)
  have h5: "balance (profile_row five_usd_store) + max 0 2 = 7"
    by (simp add: five_usd_store_def five_usd_def)
  show ?thesis
    using h1 h2 h3 h4 h5
      log_write_atomicity [OF h1 h2 h3 h4, of offline_world fresh_resolver True False "''USD''"]
    by (simp add: pay_log_fails topup_log_fails_5 topup_credited_def)
qed

text \<open>
  C3 as stated fails for a top-up: the user holds 10.00 USD, tops up 5.00 USD and the
  INSERT of the log row fails; the view swallows the failure, the balance is 15.00 and the
  log is still empty.
\<close>

theorem log_write_atomicity_counterexample:
  "topup_post offline_world fresh_resolver ten_usd_store (Num 5) ''USD'' False =
     ((LogLost, \<lparr>profile_row = \<lparr>balance = 15, preferred_currency = ''USD'', total_spent = 0\<rparr>,
                 wallet_txs = []\<rparr>), fresh_resolver)
   \<and> balance (profile_row ten_usd_store) = 10 \<and> wallet_txs ten_usd_store = []"
  using topup_log_fails_10 by (simp add: ten_usd_store_def ten_usd_def)

section \<open>Totality of the conversion\<close>






text \<open>
  A source currency outside the supported set is given the USD table (the last
  \<open>return _FALLBACK_USD\<close> of \<open>_fetch_rates\<close>), so 10 XXX convert to 9.20 EUR; with the static
  table the pairs without a usable rate are exactly those whose target is outside the set.
\<close>

lemma static_rates_keys: "map_of (static_rates b) t = None \<longleftrightarrow> \<not> supported t"
  by (auto simp: static_rates_def supported_def map_of_eq_None_iff image_iff
      split: option.splits)

lemma no_usable_rate_offline:
  "no_usable_rate offline_world fresh_resolver f t \<longleftrightarrow> f \<noteq> t \<and> \<not> supported t"
  using static_rates_keys [of f t]
  by (auto simp: no_usable_rate_def fetch_offline_fresh pivot_possible_def static_usd supported_def
      split: option.splits)

lemma convert_xxx_eur:
  "fst (convert_amount offline_world fresh_resolver 10 ''XXX'' ''EUR'') = Inr (920/100)"
proof -
  have m: "dec_mul 10 (92/100) = Inr (920/100)"
    using ctx_fix_cents [of "920/100" 920] by (simp add: dec_mul_def)
  have q: "quantize_cents (920/100) = Inr (920/100)"
    by (simp add: quantize_cents_eq round_half_up_def round_half_up_2_def)
  have s: "static_rates ''XXX'' = FALLBACK_USD"
    by (simp add: static_rates_def FALLBACK_USD_def)
  have r: "map_of FALLBACK_USD ''EUR'' = Some (8286623314361713 / 9007199254740992)"
    by (simp add: FALLBACK_USD_def float_round_092)
  show ?thesis
    using m q
    by (simp add: convert_amount_def fetch_offline_fresh s r convert_direct_def float_repr_092)
qed




section \<open>Two debits at once\<close>

lemma deduct_eval:
  assumes cB: "is_cents (balance p)" and bB: "\<bar>balance p\<bar> < 10 ^ 10"
    and cc: "is_cents c" and pos: "0 < c" and cb: "c < 10 ^ 10"
  shows "deduct_balance w r p st (Num c) None False True =
           (if c \<le> balance p
            then Inr (True, p\<lparr>balance := balance p - c\<rparr>,
                      st\<lparr>profile_row := (profile_row st)\<lparr>balance := balance p - c\<rparr>\<rparr>)
            else Inr (False, p, st), r)"
proof -
  have tp: "to_preferred w r p c (or_preferred None p) = (c, r)"
    by (simp add: to_preferred_def or_preferred_def)
  have cd: "is_cents (balance p - c)" using cB cc by (rule is_cents_diff)
  have "\<bar>balance p - c\<bar> < 10 ^ 26" using bB pos cb by (simp add: abs_less_iff)
  then have d: "dec_sub (balance p) c = Inr (balance p - c)"
    using ctx_fix_cents' [OF cd] by (simp add: dec_sub_def)
  show ?thesis
  proof (cases "c \<le> balance p")
    case True
    then have "\<bar>balance p - c\<bar> < 10 ^ 10" using bB pos by (simp add: abs_less_iff)
    then have "decimal_field 12 2 (balance p - c) = Inr (balance p - c)"
      using decimal_field_cents [OF cd] by simp
    then show ?thesis
      using True pos d by (simp add: deduct_balance_def tp save_balance_def)
  next
    case False
    then show ?thesis using pos d by (simp add: deduct_balance_def tp)
  qed
qed

lemma debit_schedules_eq:
  "debit_schedules =
     [[Load First, Debit First, Load Second, Debit Second],
      [Load First, Load Second, Debit First, Debit Second],
      [Load First, Load Second, Debit Second, Debit First],
      [Load Second, Load First, Debit First, Debit Second],
      [Load Second, Load First, Debit Second, Debit First],
      [Load Second, Debit Second, Load First, Debit First]]"
  by (simp add: debit_schedules_def)

lemma two_debits:
  assumes cB: "is_cents (balance (profile_row st))" and bB: "\<bar>balance (profile_row st)\<bar> < 10 ^ 10"
    and cc: "is_cents c" and pos: "0 < c" and le: "c \<le> balance (profile_row st)"
    and lt: "balance (profile_row st) < 2 * c"
    and sch: "sched \<in> set debit_schedules"
  shows "balance (profile_row (stored (run_schedule w r st c sched))) = balance (profile_row st) - c
       \<and> (if stale_read sched
          then returned (run_schedule w r st c sched) First = Some (Inr True)
             \<and> returned (run_schedule w r st c sched) Second = Some (Inr True)
          else (returned (run_schedule w r st c sched) First = Some (Inr True)
                  \<and> returned (run_schedule w r st c sched) Second = Some (Inr False))
             \<or> (returned (run_schedule w r st c sched) First = Some (Inr False)
                  \<and> returned (run_schedule w r st c sched) Second = Some (Inr True)))"
proof -
  define B where "B = balance (profile_row st)"
  have cb: "c < 10 ^ 10" using le bB by simp
  have cd: "is_cents (B - c)" using cB cc unfolding B_def by (rule is_cents_diff)
  have bd: "\<bar>B - c\<bar> < 10 ^ 10" using bB pos le by (simp add: B_def abs_less_iff)
  have n: "\<not> c \<le> B - c" using lt by (simp add: B_def)
  have e1: "\<And>r p s. balance p = B \<Longrightarrow> deduct_balance w r p s (Num c) None False True
              = (Inr (True, p\<lparr>balance := B - c\<rparr>,
                      s\<lparr>profile_row := (profile_row s)\<lparr>balance := B - c\<rparr>\<rparr>), r)"
    using deduct_eval [OF _ _ cc pos cb] cB bB le by (simp add: B_def)
  have e2: "\<And>r p s. balance p = B - c \<Longrightarrow> deduct_balance w r p s (Num c) None False True
              = (Inr (False, p, s), r)"
    using deduct_eval [OF _ _ cc pos cb] cd bd n by simp
  consider "sched = [Load First, Debit First, Load Second, Debit Second]"
    | "sched = [Load First, Load Second, Debit First, Debit Second]"
    | "sched = [Load First, Load Second, Debit Second, Debit First]"
    | "sched = [Load Second, Load First, Debit First, Debit Second]"
    | "sched = [Load Second, Load First, Debit Second, Debit First]"
    | "sched = [Load Second, Debit Second, Load First, Debit First]"
    using sch by (auto simp: debit_schedules_eq)
  then show ?thesis
  proof cases
    case 1
    then show ?thesis
      by (simp add: run_schedule_def run_step_def e1 e2 B_def [symmetric])
  next
    case 2
    then show ?thesis
      by (simp add: run_schedule_def run_step_def e1 e2 B_def [symmetric])
  next
    case 3
    then show ?thesis
      by (simp add: run_schedule_def run_step_def e1 e2 B_def [symmetric])
  next
    case 4
    then show ?thesis
      by (simp add: run_schedule_def run_step_def e1 e2 B_def [symmetric])
  next
    case 5
    then show ?thesis
      by (simp add: run_schedule_def run_step_def e1 e2 B_def [symmetric])
  next
    case 6
    then show ?thesis
      by (simp add: run_schedule_def run_step_def e1 e2 B_def [symmetric])
  qed
qed

lemma ten_usd_debit_facts:
  "is_cents (balance (profile_row ten_usd_store))" "\<bar>balance (profile_row ten_usd_store)\<bar> < 10 ^ 10"
  "is_cents 6" "(0::rat) < 6" "6 \<le> balance (profile_row ten_usd_store)"
  "balance (profile_row ten_usd_store) < 2 * 6"
  by (simp_all add: ten_usd_store_def ten_usd_def is_cents_def)

text \<open>
  C9 (as amended).  Two requests debit the same amount \<open>c\<close> from a balance that covers one
  debit but not two.  In every interleaving the stored balance ends as the old balance
  minus \<open>c\<close>.  When one request loads the profile after the other has debited, exactly one
  debit succeeds and the other returns \<open>False\<close>; when both load before either debits, both
  succeed, each writing the same balance, so \<open>2c\<close> is granted and only \<open>c\<close> is deducted.
\<close>

theorem concurrent_debits:
  assumes "is_cents (balance (profile_row st))" and "\<bar>balance (profile_row st)\<bar> < 10 ^ 10"
    and "is_cents c" and "0 < c" and "c \<le> balance (profile_row st)"
    and "balance (profile_row st) < 2 * c"
    and "sched \<in> set debit_schedules"
  shows "balance (profile_row (stored (run_schedule w r st c sched))) = balance (profile_row st) - c
       \<and> (if stale_read sched
          then returned (run_schedule w r st c sched) First = Some (Inr True)
             \<and> returned (run_schedule w r st c sched) Second = Some (Inr True)
          else (returned (run_schedule w r st c sched) First = Some (Inr True)
                  \<and> returned (run_schedule w r st c sched) Second = Some (Inr False))
             \<or> (returned (run_schedule w r st c sched) First = Some (Inr False)
                  \<and> returned (run_schedule w r st c sched) Second = Some (Inr True)))"
  using assms by (rule two_debits)

theorem concurrent_debits_witness:
  "is_cents (balance (profile_row ten_usd_store)) \<and> \<bar>balance (profile_row ten_usd_store)\<bar> < 10 ^ 10
   \<and> is_cents 6 \<and> (0::rat) < 6 \<and> 6 \<le> balance (profile_row ten_usd_store)
   \<and> balance (profile_row ten_usd_store) < 2 * 6
   \<and> serial_schedule \<in> set debit_schedules \<and> \<not> stale_read serial_schedule
   \<and> stale_schedule \<in> set debit_schedules \<and> stale_read stale_schedule
   \<and> balance (profile_row (stored (run_schedule offline_world fresh_resolver ten_usd_store 6
                                      serial_schedule))) = 4
   \<and> returned (run_schedule offline_world fresh_resolver ten_usd_store 6 serial_schedule) First
       = Some (Inr True)
   \<and> returned (run_schedule offline_world fresh_resolver ten_usd_store 6 serial_schedule) Second
       = Some (Inr False)
   \<and> balance (profile_row (stored (run_schedule offline_world fresh_resolver ten_usd_store 6
                                      stale_schedule))) = 4
   \<and> returned (run_schedule offline_world fresh_resolver ten_usd_store 6 stale_schedule) First
       = Some (Inr True)
   \<and> returned (run_schedule offline_world fresh_resolver ten_usd_store 6 stale_schedule) Second
       = Some (Inr True)"
proof -
  have s1: "serial_schedule \<in> set debit_schedules"
    by (simp add: serial_schedule_def debit_schedules_eq)
  have s2: "stale_schedule \<in> set debit_schedules"
    by (simp add: stale_schedule_def debit_schedules_eq)
  have n1: "\<not> stale_read serial_schedule" by (simp add: serial_schedule_def)
  have n2: "stale_read stale_schedule" by (simp add: stale_schedule_def)
  have b: "balance (profile_row ten_usd_store) - 6 = 4"
    by (simp add: ten_usd_store_def ten_usd_def)
  have first: "returned (run_schedule offline_world fresh_resolver ten_usd_store 6 serial_schedule) First
                 = Some (Inr True)"
    by (simp add: run_schedule_def run_step_def serial_schedule_def deduct_eval ten_usd_store_def
        ten_usd_def is_cents_def)
  show ?thesis
    using ten_usd_debit_facts s1 s2 n1 n2 b first
      concurrent_debits [OF ten_usd_debit_facts s1, of offline_world fresh_resolver]
      concurrent_debits [OF ten_usd_debit_facts s2, of offline_world fresh_resolver]
    by simp
qed

text \<open>
  C9 as stated fails: with 10.00 in the wallet and two debits of 6.00 whose loads both
  come first, both debits return \<open>True\<close> and the stored balance is 4.00.
\<close>

theorem concurrent_debits_counterexample:
  "stale_schedule \<in> set debit_schedules
   \<and> balance (profile_row ten_usd_store) = 10
   \<and> returned (run_schedule offline_world fresh_resolver ten_usd_store 6 stale_schedule) First
       = Some (Inr True)
   \<and> returned (run_schedule offline_world fresh_resolver ten_usd_store 6 stale_schedule) Second
       = Some (Inr True)
   \<and> balance (profile_row (stored (run_schedule offline_world fresh_resolver ten_usd_store 6
                                      stale_schedule))) = 4"
proof -
  have s2: "stale_schedule \<in> set debit_schedules"
    by (simp add: stale_schedule_def debit_schedules_eq)
  have n2: "stale_read stale_schedule" by (simp add: stale_schedule_def)
  show ?thesis
    using s2 n2 two_debits [OF ten_usd_debit_facts s2, of offline_world fresh_resolver]
    by (simp add: ten_usd_store_def ten_usd_def)
qed

end
